theory Spec2Isabelle
  imports Main
begin

section \<open>BookSwap: listings, exchange requests and the accept workflow\<close>

text \<open>
  The backend keeps its data in one SQLite file that three data-access classes open with
  better-sqlite3: \<^verbatim>\<open>BookListingsDAO\<close>, \<^verbatim>\<open>ExchangeRequestsDAO\<close> and \<^verbatim>\<open>UserDAO\<close>.
  \<^verbatim>\<open>ExchangeService\<close> and \<^verbatim>\<open>BooksService\<close> wrap them and \<^verbatim>\<open>controller.js\<close> holds the
  HTTP handlers. Every method is synchronous, so a call is a function from the database
  to a result and the database it leaves behind. An exception is the left injection of a
  sum; a transaction that throws leaves the database it started from.

  Faults of the storage layer itself (I/O errors, a full disk, an exhausted rowid range)
  are outside the model, and numbers are the integers.
\<close>

subsection \<open>Rows and tables\<close>

text \<open>The interfaces \<^verbatim>\<open>BookListing\<close> and \<^verbatim>\<open>ExchangeRequest\<close> of the two DAO files.\<close>

record BookListing =
  listing_id :: int
  description :: string
  list_on_date :: int
  user_id :: int
  book_id :: int

record ExchangeRequest =
  request_id :: int
  requestee_listing_id :: int
  requester_listing_id :: int
  status :: string
  request_date :: int

text \<open>
  The tables of \<^verbatim>\<open>DatabaseInit.sql\<close> that the modelled code reads or writes, each a list
  of rows in insertion order. Of \<^verbatim>\<open>users\<close> only the columns \<^verbatim>\<open>user_id\<close> and
  \<^verbatim>\<open>username\<close> are kept (a pair), of \<^verbatim>\<open>books\<close> only \<^verbatim>\<open>book_id\<close>. The two \<open>_seq\<close>
  fields are the \<^verbatim>\<open>sqlite_sequence\<close> entries behind \<^verbatim>\<open>AUTOINCREMENT\<close>.

  The schema declares every foreign key of \<^verbatim>\<open>book_listings\<close> and \<^verbatim>\<open>exchange_requests\<close>
  with \<^verbatim>\<open>ON DELETE CASCADE\<close>. Whether SQLite enforces foreign keys is a setting of the
  connection (\<^verbatim>\<open>PRAGMA foreign_keys\<close>) that no source file touches, so it is the field
  \<open>foreign_keys\<close> of the state, and every result below says which values it holds for.

  A read by id returns the first row with that id, as \<^verbatim>\<open>get\<close> does. No result below needs
  the primary keys of a table to be distinct.
\<close>

record database =
  foreign_keys :: bool
  users :: "(int \<times> string) list"
  books :: "int list"
  book_listings :: "BookListing list"
  book_listings_seq :: int
  exchange_requests :: "ExchangeRequest list"
  exchange_requests_seq :: int

subsection \<open>Errors\<close>

text \<open>
  One constructor for each exception class the modelled code throws, carrying the message.
  \<open>Error\<close> is the plain JavaScript \<^verbatim>\<open>Error\<close>.
\<close>

datatype error =
    BookListingNotFoundError string
  | UpdateBookListingError string
  | ExchangeRequestNotFoundError string
  | CreateExchangeRequestError string
  | UpdateExchangeRequestError string
  | UserNotFoundError string
  | Error string

fun message :: "error \<Rightarrow> string" where
  "message (BookListingNotFoundError m) = m"
| "message (UpdateBookListingError m) = m"
| "message (ExchangeRequestNotFoundError m) = m"
| "message (CreateExchangeRequestError m) = m"
| "message (UpdateExchangeRequestError m) = m"
| "message (UserNotFoundError m) = m"
| "message (Error m) = m"

text \<open>A number inside a template literal: decimal digits, with a sign when negative.\<close>

fun digits :: "nat \<Rightarrow> string" where
  "digits n =
     (if n < 10 then [char_of (48 + n)]
      else digits (n div 10) @ [char_of (48 + n mod 10)])"

definition toString :: "int \<Rightarrow> string" where
  "toString i = (if i < 0 then CHR ''-'' # digits (nat (- i)) else digits (nat i))"

subsection \<open>BookListingsDAO\<close>

text \<open>\<^verbatim>\<open>SELECT * FROM book_listings WHERE listing_id = ?\<close> with \<^verbatim>\<open>get\<close>: the first row.\<close>

definition getBookListingById :: "database \<Rightarrow> int \<Rightarrow> error + BookListing" where
  "getBookListingById db listingId =
     (case find (\<lambda>l. listing_id l = listingId) (book_listings db) of
        None \<Rightarrow> Inl (BookListingNotFoundError
                 (''Book listing with ID '' @ toString listingId @ '' not found''))
      | Some listing \<Rightarrow> Inr listing)"

definition getAllBookListings :: "database \<Rightarrow> BookListing list" where
  "getAllBookListings db = book_listings db"

text \<open>
  \<^verbatim>\<open>Partial<Omit<BookListing, 'listing_id'>>\<close>: each field is given or left out.
\<close>

record BookListingUpdates =
  new_description :: "string option"
  new_list_on_date :: "int option"
  new_user_id :: "int option"
  new_book_id :: "int option"

definition updateFields :: "BookListingUpdates \<Rightarrow> nat" where
  "updateFields updates =
     (if new_description updates = None then 0 else 1)
   + (if new_list_on_date updates = None then 0 else 1)
   + (if new_user_id updates = None then 0 else 1)
   + (if new_book_id updates = None then 0 else 1)"

definition set_fields :: "BookListingUpdates \<Rightarrow> BookListing \<Rightarrow> BookListing" where
  "set_fields updates l =
     l\<lparr> description := (case new_description updates of None \<Rightarrow> description l | Some v \<Rightarrow> v),
        list_on_date := (case new_list_on_date updates of None \<Rightarrow> list_on_date l | Some v \<Rightarrow> v),
        user_id := (case new_user_id updates of None \<Rightarrow> user_id l | Some v \<Rightarrow> v),
        book_id := (case new_book_id updates of None \<Rightarrow> book_id l | Some v \<Rightarrow> v) \<rparr>"

text \<open>
  With foreign keys enforced, an \<^verbatim>\<open>UPDATE\<close> that gives a row a \<^verbatim>\<open>user_id\<close> or \<^verbatim>\<open>book_id\<close>
  without a parent row fails. It checks only the rows it changes.
\<close>

definition update_violates_foreign_key :: "database \<Rightarrow> int \<Rightarrow> BookListingUpdates \<Rightarrow> bool" where
  "update_violates_foreign_key db listingId updates =
     (foreign_keys db
      \<and> filter (\<lambda>l. listing_id l = listingId) (book_listings db) \<noteq> []
      \<and> ((case new_user_id updates of None \<Rightarrow> False | Some u \<Rightarrow> u \<notin> set (map fst (users db)))
         \<or> (case new_book_id updates of None \<Rightarrow> False | Some b \<Rightarrow> b \<notin> set (books db))))"

text \<open>
  \<^verbatim>\<open>updateBookListing\<close>: the \<^verbatim>\<open>UPDATE\<close> runs when at least one field is given, then the
  row is read back. The \<^verbatim>\<open>catch\<close> turns the read's \<^verbatim>\<open>BookListingNotFoundError\<close> into an
  \<^verbatim>\<open>UpdateBookListingError\<close> and anything else into an \<^verbatim>\<open>Error\<close>; the transaction rolls
  back.
\<close>

definition updateBookListing ::
  "database \<Rightarrow> int \<Rightarrow> BookListingUpdates \<Rightarrow> (error + BookListing) \<times> database" where
  "updateBookListing db listingId updates =
     (if updateFields updates > 0 \<and> update_violates_foreign_key db listingId updates
      then (Inl (Error (''Failed to update listing: '' @ ''FOREIGN KEY constraint failed'')), db)
      else
        let db1 = (if updateFields updates > 0
                   then db\<lparr>book_listings :=
                          map (\<lambda>l. if listing_id l = listingId then set_fields updates l else l)
                            (book_listings db)\<rparr>
                   else db)
        in case getBookListingById db1 listingId of
             Inl (BookListingNotFoundError m) \<Rightarrow>
               (Inl (UpdateBookListingError
                  ''Failed to retrieve updated listing. Transaction failed and rolled back.''), db)
           | Inl e \<Rightarrow> (Inl (Error (''Failed to update listing: '' @ message e)), db)
           | Inr listing \<Rightarrow> (Inr listing, db1))"

text \<open>
  \<^verbatim>\<open>DELETE FROM book_listings WHERE listing_id = ?\<close>. \<^verbatim>\<open>result.changes\<close> counts the rows
  the statement itself removed. With foreign keys enforced, removing a listing also
  removes, through \<^verbatim>\<open>ON DELETE CASCADE\<close>, each exchange request that references it on
  either side; a statement that removes no listing cascades nothing.
\<close>

definition deleteBookListing :: "database \<Rightarrow> int \<Rightarrow> bool \<times> database" where
  "deleteBookListing db listingId =
     (let changes = length (filter (\<lambda>l. listing_id l = listingId) (book_listings db));
          db1 = db\<lparr>book_listings := filter (\<lambda>l. listing_id l \<noteq> listingId) (book_listings db)\<rparr>;
          db2 = (if foreign_keys db \<and> changes > 0
                 then db1\<lparr>exchange_requests :=
                        filter (\<lambda>r. requestee_listing_id r \<noteq> listingId
                                  \<and> requester_listing_id r \<noteq> listingId)
                          (exchange_requests db1)\<rparr>
                 else db1)
      in (changes > 0, db2))"

subsection \<open>ExchangeRequestsDAO\<close>

definition getExchangeRequestById :: "database \<Rightarrow> int \<Rightarrow> error + ExchangeRequest" where
  "getExchangeRequestById db requestId =
     (case find (\<lambda>r. request_id r = requestId) (exchange_requests db) of
        None \<Rightarrow> Inl (ExchangeRequestNotFoundError
                 (''Exchange request with ID '' @ toString requestId @ '' not found''))
      | Some request \<Rightarrow> Inr request)"

definition getExchangeRequestsByRequestee :: "database \<Rightarrow> int \<Rightarrow> ExchangeRequest list" where
  "getExchangeRequestsByRequestee db listingId =
     filter (\<lambda>r. requestee_listing_id r = listingId) (exchange_requests db)"

text \<open>\<^verbatim>\<open>SELECT COUNT(*) ... WHERE requestee_listing_id = ? AND requester_listing_id = ?\<close>.\<close>

definition exchangeRequestExists :: "database \<Rightarrow> int \<Rightarrow> int \<Rightarrow> bool" where
  "exchangeRequestExists db requesteeListingId requesterListingId =
     (length (filter (\<lambda>r. requestee_listing_id r = requesteeListingId
                         \<and> requester_listing_id r = requesterListingId)
                (exchange_requests db)) > 0)"

text \<open>
  The argument of \<^verbatim>\<open>createExchangeRequest\<close>, an exchange request without its id. The code
  reads \<^verbatim>\<open>request_date\<close> with \<^verbatim>\<open>??\<close>, so the date may be missing.
\<close>

record NewExchangeRequest =
  for_requestee_listing_id :: int
  for_requester_listing_id :: int
  for_status :: string
  for_request_date :: "int option"

text \<open>
  \<^verbatim>\<open>AUTOINCREMENT\<close>: the new rowid is one more than the largest rowid the table has ever
  held, which \<^verbatim>\<open>sqlite_sequence\<close> remembers.
\<close>

definition next_rowid :: "int \<Rightarrow> int list \<Rightarrow> int" where
  "next_rowid seq ids = fold max ids seq + 1"

text \<open>
  \<^verbatim>\<open>createExchangeRequest\<close>. \<open>now\<close> is \<^verbatim>\<open>Math.floor(Date.now() / 1000)\<close>. Inside the
  transaction: both listings are looked up (\<^verbatim>\<open>SELECT user_id ... WHERE listing_id = ?\<close>),
  a missing listing or a common owner throws, otherwise the row is inserted and read
  back. The outer \<^verbatim>\<open>catch\<close> rewraps whatever was thrown.
\<close>

definition create_transaction ::
  "database \<Rightarrow> int \<Rightarrow> NewExchangeRequest \<Rightarrow> (error + ExchangeRequest) \<times> database" where
  "create_transaction db now exchangeRequest =
     (let requesteeListing = find (\<lambda>l. listing_id l = for_requestee_listing_id exchangeRequest)
                               (book_listings db);
          requesterListing = find (\<lambda>l. listing_id l = for_requester_listing_id exchangeRequest)
                               (book_listings db)
      in case requesteeListing of
           None \<Rightarrow> (Inl (CreateExchangeRequestError ''One or both listings not found''), db)
         | Some requestee \<Rightarrow>
        (case requesterListing of
           None \<Rightarrow> (Inl (CreateExchangeRequestError ''One or both listings not found''), db)
         | Some requester \<Rightarrow>
             if user_id requestee = user_id requester
             then (Inl (CreateExchangeRequestError
                     ''Cannot create exchange request between listings owned by the same user''), db)
             else
               let requestDate = (case for_request_date exchangeRequest of
                                    None \<Rightarrow> now | Some d \<Rightarrow> d);
                   requestId = next_rowid (exchange_requests_seq db)
                                 (map request_id (exchange_requests db));
                   row = \<lparr> request_id = requestId,
                           requestee_listing_id = for_requestee_listing_id exchangeRequest,
                           requester_listing_id = for_requester_listing_id exchangeRequest,
                           status = (if for_status exchangeRequest = [] then ''pending''
                                     else for_status exchangeRequest),
                           request_date = requestDate \<rparr>;
                   db1 = db\<lparr> exchange_requests := exchange_requests db @ [row],
                             exchange_requests_seq := requestId \<rparr>
               in (case getExchangeRequestById db1 requestId of
                     Inl e \<Rightarrow> (Inl e, db)
                   | Inr request \<Rightarrow> (Inr request, db1))))"

definition createExchangeRequest ::
  "database \<Rightarrow> int \<Rightarrow> NewExchangeRequest \<Rightarrow> (error + ExchangeRequest) \<times> database" where
  "createExchangeRequest db now exchangeRequest =
     (case create_transaction db now exchangeRequest of
        (Inl (ExchangeRequestNotFoundError m), db') \<Rightarrow>
          (Inl (CreateExchangeRequestError
             ''Failed to retrieve created exchange request. Transaction failed and rolled back.''),
           db')
      | (Inl e, db') \<Rightarrow>
          (Inl (CreateExchangeRequestError (''Failed to create exchange request: '' @ message e)),
           db')
      | (Inr request, db') \<Rightarrow> (Inr request, db'))"

text \<open>
  \<^verbatim>\<open>updateExchangeRequestStatus\<close>: \<^verbatim>\<open>UPDATE exchange_requests SET status = ? WHERE
  request_id = ?\<close>, then the row is read back; the \<^verbatim>\<open>catch\<close> turns the read's
  \<^verbatim>\<open>ExchangeRequestNotFoundError\<close> into an \<^verbatim>\<open>UpdateExchangeRequestError\<close>.
\<close>

definition updateExchangeRequestStatus ::
  "database \<Rightarrow> int \<Rightarrow> string \<Rightarrow> (error + ExchangeRequest) \<times> database" where
  "updateExchangeRequestStatus db requestId new_status =
     (let db1 = db\<lparr>exchange_requests :=
                    map (\<lambda>r. if request_id r = requestId then r\<lparr>status := new_status\<rparr> else r)
                      (exchange_requests db)\<rparr>
      in case getExchangeRequestById db1 requestId of
           Inl (ExchangeRequestNotFoundError m) \<Rightarrow>
             (Inl (UpdateExchangeRequestError
                ''Failed to retrieve updated exchange request. Transaction failed and rolled back.''),
              db)
         | Inl e \<Rightarrow> (Inl (Error (''Failed to update exchange request: '' @ message e)), db)
         | Inr request \<Rightarrow> (Inr request, db1))"

text \<open>
  \<^verbatim>\<open>acceptExchangeRequest\<close>, one transaction: read the request, set it to
  \<^verbatim>\<open>'accepted'\<close> (a nested transaction), run \<^verbatim>\<open>UPDATE exchange_requests SET status =
  'rejected' WHERE requestee_listing_id = ? AND request_id != ?\<close>, read the request again.
  Any exception leaves the database as it was.
\<close>

definition acceptExchangeRequest ::
  "database \<Rightarrow> int \<Rightarrow> (error + ExchangeRequest) \<times> database" where
  "acceptExchangeRequest db requestId =
     (case getExchangeRequestById db requestId of
        Inl e \<Rightarrow> (Inl e, db)
      | Inr exchangeRequest \<Rightarrow>
          (case updateExchangeRequestStatus db requestId ''accepted'' of
             (Inl e, _) \<Rightarrow> (Inl e, db)
           | (Inr _, db1) \<Rightarrow>
               let requesteeListingId = requestee_listing_id exchangeRequest;
                   db2 = db1\<lparr>exchange_requests :=
                           map (\<lambda>r. if requestee_listing_id r = requesteeListingId
                                       \<and> request_id r \<noteq> requestId
                                    then r\<lparr>status := ''rejected''\<rparr> else r)
                             (exchange_requests db1)\<rparr>
               in (case getExchangeRequestById db2 requestId of
                     Inl e \<Rightarrow> (Inl e, db)
                   | Inr accepted \<Rightarrow> (Inr accepted, db2))))"

definition deleteExchangeRequest :: "database \<Rightarrow> int \<Rightarrow> bool \<times> database" where
  "deleteExchangeRequest db requestId =
     (let changes = length (filter (\<lambda>r. request_id r = requestId) (exchange_requests db))
      in (changes > 0,
          db\<lparr>exchange_requests :=
               filter (\<lambda>r. request_id r \<noteq> requestId) (exchange_requests db)\<rparr>))"

subsection \<open>UserDAO and the services\<close>

text \<open>
  \<^verbatim>\<open>UserService.getUserProfile\<close> passes on \<^verbatim>\<open>UserDAO.getUserByUsername\<close>: the first row
  of \<^verbatim>\<open>users\<close> with that name, or a \<^verbatim>\<open>UserNotFoundError\<close>.
\<close>

definition getUserProfile :: "database \<Rightarrow> string \<Rightarrow> error + (int \<times> string)" where
  "getUserProfile db username =
     (case find (\<lambda>u. snd u = username) (users db) of
        None \<Rightarrow> Inl (UserNotFoundError (''User with username '' @ username @ '' not found''))
      | Some user \<Rightarrow> Inr user)"

text \<open>
  \<^verbatim>\<open>ExchangeService.createExchangeRequest\<close>: the duplicate check on the ordered pair, then
  the DAO's create with status \<^verbatim>\<open>'pending'\<close> and the current time. Its \<^verbatim>\<open>catch\<close> rethrows
  a \<^verbatim>\<open>CreateExchangeRequestError\<close> as it is and wraps anything else.
\<close>

definition service_catch :: "(error + 'a) \<times> database \<Rightarrow> (error + 'a) \<times> database" where
  "service_catch outcome =
     (case outcome of
        (Inl (CreateExchangeRequestError m), db) \<Rightarrow> (Inl (CreateExchangeRequestError m), db)
      | (Inl e, db) \<Rightarrow>
          (Inl (CreateExchangeRequestError (''Failed to create exchange request: '' @ message e)), db)
      | (Inr request, db) \<Rightarrow> (Inr request, db))"

definition ExchangeService_createExchangeRequest ::
  "database \<Rightarrow> int \<Rightarrow> int \<Rightarrow> int \<Rightarrow> (error + ExchangeRequest) \<times> database" where
  "ExchangeService_createExchangeRequest db now requesteeListingId requesterListingId =
     service_catch
       (if exchangeRequestExists db requesteeListingId requesterListingId
        then (Inl (CreateExchangeRequestError
                ''An exchange request already exists between these listings''), db)
        else createExchangeRequest db now
               \<lparr> for_requestee_listing_id = requesteeListingId,
                 for_requester_listing_id = requesterListingId,
                 for_status = ''pending'',
                 for_request_date = Some now \<rparr>)"

subsection \<open>The accept handler of the controller\<close>

text \<open>
  A response is its status code and its JSON body: an error message or the exchange
  request.
\<close>

datatype body = error_json string | request_json ExchangeRequest

datatype response = Response nat body

text \<open>The \<^verbatim>\<open>catch\<close> of the handler: 404 for a missing exchange request, 500 otherwise.\<close>

definition accept_catch :: "error \<Rightarrow> response" where
  "accept_catch e =
     (case e of
        ExchangeRequestNotFoundError m \<Rightarrow> Response 404 (error_json m)
      | _ \<Rightarrow> Response 500 (error_json ''Internal server error''))"

text \<open>
  \<^verbatim>\<open>app.put('/exchanges/:id/accept')\<close>. \<open>requestId\<close> is what \<^verbatim>\<open>parseInt(req.params.id)\<close>
  gave (\<open>None\<close> for \<^verbatim>\<open>NaN\<close>), \<open>user\<close> the username that \<^verbatim>\<open>authenticateJWT\<close> attached
  to the request, if any. The handler reads the request, the caller's profile and the
  requestee listing, answers 403 unless the caller owns that listing, accepts the request
  and then deletes the requestee and the requester listing. The test
  \<^verbatim>\<open>!existingRequest\<close> never fires, the request being a row object by then.
\<close>

definition acceptExchange ::
  "database \<Rightarrow> int option \<Rightarrow> string option \<Rightarrow> response \<times> database" where
  "acceptExchange db requestId user =
     (case requestId of
        None \<Rightarrow> (Response 400 (error_json ''Invalid request ID''), db)
      | Some requestId \<Rightarrow>
     (case user of
        None \<Rightarrow> (Response 401 (error_json ''User not authenticated''), db)
      | Some username \<Rightarrow>
     (case getExchangeRequestById db requestId of
        Inl e \<Rightarrow> (accept_catch e, db)
      | Inr existingRequest \<Rightarrow>
     (case getUserProfile db username of
        Inl e \<Rightarrow> (accept_catch e, db)
      | Inr profile \<Rightarrow>
     (case getBookListingById db (requestee_listing_id existingRequest) of
        Inl e \<Rightarrow> (accept_catch e, db)
      | Inr requesteeListing \<Rightarrow>
          if user_id requesteeListing \<noteq> fst profile
          then (Response 403 (error_json
                  ''Only the owner of the requested book can accept an exchange request''), db)
          else
            (case acceptExchangeRequest db requestId of
               (Inl e, db1) \<Rightarrow> (accept_catch e, db1)
             | (Inr exchangeRequest, db1) \<Rightarrow>
                 let requesteeListingId = requestee_listing_id exchangeRequest;
                     requesterListingId = requester_listing_id exchangeRequest;
                     db2 = snd (deleteBookListing db1 requesteeListingId);
                     db3 = snd (deleteBookListing db2 requesterListingId)
                 in (Response 200 (request_json exchangeRequest), db3)))))))"

subsection \<open>Invariants of the store\<close>

text \<open>
  Referential integrity of \<^verbatim>\<open>exchange_requests\<close>: both listings of every stored request
  are rows of \<^verbatim>\<open>book_listings\<close>.
\<close>

definition listing_ids :: "database \<Rightarrow> int list" where
  "listing_ids db = map listing_id (book_listings db)"

definition references_exist :: "database \<Rightarrow> bool" where
  "references_exist db =
     list_all (\<lambda>r. requestee_listing_id r \<in> set (listing_ids db)
                 \<and> requester_listing_id r \<in> set (listing_ids db))
       (exchange_requests db)"

subsection \<open>A small marketplace\<close>

text \<open>
  Three users with one listing each and three pending requests: bob offers listing 200 for
  alice's listing 100 (request 1) and for carol's listing 300 (request 2), carol offers
  listing 300 for alice's listing 100 (request 3). \<open>settled\<close> is the same store after the
  requests have left the pending state.
\<close>

definition listing_row :: "int \<Rightarrow> int \<Rightarrow> int \<Rightarrow> BookListing" where
  "listing_row i u b =
     \<lparr> listing_id = i, description = [], list_on_date = 1700000000, user_id = u, book_id = b \<rparr>"

definition request_row :: "int \<Rightarrow> int \<Rightarrow> int \<Rightarrow> string \<Rightarrow> ExchangeRequest" where
  "request_row i requestee requester s =
     \<lparr> request_id = i, requestee_listing_id = requestee, requester_listing_id = requester,
       status = s, request_date = 1700000100 \<rparr>"

definition scenario :: "bool \<Rightarrow> database" where
  "scenario fk =
     \<lparr> foreign_keys = fk,
       users = [(1, ''alice''), (2, ''bob''), (3, ''carol'')],
       books = [10, 20, 30],
       book_listings = [listing_row 100 1 10, listing_row 200 2 20, listing_row 300 3 30],
       book_listings_seq = 300,
       exchange_requests = [request_row 1 100 200 ''pending'', request_row 2 300 200 ''pending'',
                            request_row 3 100 300 ''pending''],
       exchange_requests_seq = 3 \<rparr>"

definition settled :: database where
  "settled = (scenario True)\<lparr>exchange_requests :=
                [request_row 1 100 200 ''rejected'', request_row 2 300 200 ''cancelled'',
                 request_row 3 100 300 ''completed'']\<rparr>"

text \<open>The database that \<^verbatim>\<open>acceptExchangeRequest\<close> leaves behind.\<close>

abbreviation after_accept :: "database \<Rightarrow> int \<Rightarrow> database" where
  "after_accept db requestId \<equiv> snd (acceptExchangeRequest db requestId)"

text \<open>
  What accepting request \<open>requestId\<close>, whose requestee listing is \<open>requesteeListingId\<close>,
  does to one row: the two \<^verbatim>\<open>UPDATE\<close> statements of \<^verbatim>\<open>acceptExchangeRequest\<close> in a row.
\<close>

definition accept_row :: "int \<Rightarrow> int \<Rightarrow> ExchangeRequest \<Rightarrow> ExchangeRequest" where
  "accept_row requestId requesteeListingId r =
     (if request_id r = requestId then r\<lparr>status := ''accepted''\<rparr>
      else if requestee_listing_id r = requesteeListingId then r\<lparr>status := ''rejected''\<rparr>
      else r)"

subsection \<open>Further example data and observers\<close>

text \<open>An update that gives a listing a new description and nothing else.\<close>

definition retitle :: BookListingUpdates where
  "retitle = \<lparr> new_description = Some ''signed copy'', new_list_on_date = None,
               new_user_id = None, new_book_id = None \<rparr>"

text \<open>
  Whether a call threw one of the two not-found classes of the DAOs, which is what an
  \<^verbatim>\<open>instanceof\<close> test in a caller sees.
\<close>

definition raises_not_found :: "(error + 'a) \<times> database \<Rightarrow> bool" where
  "raises_not_found outcome =
     (case fst outcome of
        Inl (BookListingNotFoundError m) \<Rightarrow> True
      | Inl (ExchangeRequestNotFoundError m) \<Rightarrow> True
      | _ \<Rightarrow> False)"

subsection \<open>Creating a request, described\<close>

text \<open>
  The argument record of \<^verbatim>\<open>createExchangeRequest\<close>, the row its \<^verbatim>\<open>INSERT\<close> writes and the
  database after the insert, named so that the results below can refer to them.
\<close>

definition proposal :: "int \<Rightarrow> int \<Rightarrow> string \<Rightarrow> int option \<Rightarrow> NewExchangeRequest" where
  "proposal requestee requester s d =
     \<lparr> for_requestee_listing_id = requestee, for_requester_listing_id = requester,
       for_status = s, for_request_date = d \<rparr>"

definition inserted_row :: "database \<Rightarrow> int \<Rightarrow> NewExchangeRequest \<Rightarrow> ExchangeRequest" where
  "inserted_row db now exchangeRequest =
     \<lparr> request_id = next_rowid (exchange_requests_seq db) (map request_id (exchange_requests db)),
       requestee_listing_id = for_requestee_listing_id exchangeRequest,
       requester_listing_id = for_requester_listing_id exchangeRequest,
       status = (if for_status exchangeRequest = [] then ''pending'' else for_status exchangeRequest),
       request_date = (case for_request_date exchangeRequest of None \<Rightarrow> now | Some d \<Rightarrow> d) \<rparr>"

definition with_row :: "database \<Rightarrow> ExchangeRequest \<Rightarrow> database" where
  "with_row db row =
     db\<lparr> exchange_requests := exchange_requests db @ [row],
         exchange_requests_seq := request_id row \<rparr>"

text \<open>
  A store without requests: the three listings of the small marketplace and a second
  listing of alice, 400.
\<close>

definition listed :: database where
  "listed =
     \<lparr> foreign_keys = True,
       users = [(1, ''alice''), (2, ''bob''), (3, ''carol'')],
       books = [10, 20, 30, 40],
       book_listings = [listing_row 100 1 10, listing_row 200 2 20, listing_row 300 3 30,
                        listing_row 400 1 40],
       book_listings_seq = 400,
       exchange_requests = [],
       exchange_requests_seq = 0 \<rparr>"

subsection \<open>After the accept handler\<close>

text \<open>
  The two \<^verbatim>\<open>deleteBookListing\<close> calls at the end of the accept handler, requestee listing
  first, and the database the handler leaves behind for an authenticated caller.
\<close>

definition retire_listings :: "database \<Rightarrow> int \<Rightarrow> int \<Rightarrow> database" where
  "retire_listings db requesteeListingId requesterListingId =
     snd (deleteBookListing (snd (deleteBookListing db requesteeListingId)) requesterListingId)"

abbreviation after_acceptExchange :: "database \<Rightarrow> int \<Rightarrow> string \<Rightarrow> database" where
  "after_acceptExchange db requestId username \<equiv>
     snd (acceptExchange db (Some requestId) (Some username))"

section \<open>Accepting an exchange request\<close>

lemma find_map_key:
  assumes "\<And>x. P (f x) = P x"
  shows "find P (map f xs) = map_option f (find P xs)"
  using assms by (induction xs) auto

lemma getById_map:
  assumes "\<And>r. request_id (f r) = request_id r"
  shows "getExchangeRequestById (db\<lparr>exchange_requests := map f (exchange_requests db)\<rparr>) i
         = map_sum id f (getExchangeRequestById db i)"
proof -
  have "find (\<lambda>r. request_id r = i) (map f (exchange_requests db))
          = map_option f (find (\<lambda>r. request_id r = i) (exchange_requests db))"
    by (rule find_map_key) (simp add: assms)
  then show ?thesis
    unfolding getExchangeRequestById_def by (simp split: option.splits)
qed

lemma getById_Inr_iff:
  "getExchangeRequestById db i = Inr Q \<longleftrightarrow> find (\<lambda>r. request_id r = i) (exchange_requests db) = Some Q"
  unfolding getExchangeRequestById_def by (simp split: option.splits)

lemma getById_request_id:
  "getExchangeRequestById db i = Inr Q \<Longrightarrow> request_id Q = i"
  unfolding getById_Inr_iff by (auto simp: find_Some_iff)

lemma updateStatus_found:
  assumes "getExchangeRequestById db i = Inr Q"
  shows "updateExchangeRequestStatus db i s =
           (Inr (Q\<lparr>status := s\<rparr>),
            db\<lparr>exchange_requests :=
                 map (\<lambda>r. if request_id r = i then r\<lparr>status := s\<rparr> else r) (exchange_requests db)\<rparr>)"
proof -
  let ?f = "\<lambda>r. if request_id r = i then r\<lparr>status := s\<rparr> else r"
  have "getExchangeRequestById (db\<lparr>exchange_requests := map ?f (exchange_requests db)\<rparr>) i
          = Inr (?f Q)"
    using assms by (subst getById_map) auto
  moreover have "request_id Q = i" using assms by (rule getById_request_id)
  ultimately show ?thesis
    unfolding updateExchangeRequestStatus_def by (simp add: Let_def)
qed

lemma accept_found:
  assumes "getExchangeRequestById db i = Inr Q"
  shows "acceptExchangeRequest db i =
           (Inr (Q\<lparr>status := ''accepted''\<rparr>),
            db\<lparr>exchange_requests :=
                 map (accept_row i (requestee_listing_id Q)) (exchange_requests db)\<rparr>)"
proof -
  let ?X = "requestee_listing_id Q"
  let ?f = "\<lambda>r. if request_id r = i then r\<lparr>status := ''accepted''\<rparr> else r"
  let ?g = "\<lambda>r. if requestee_listing_id r = ?X \<and> request_id r \<noteq> i
                then r\<lparr>status := ''rejected''\<rparr> else r"
  let ?db1 = "db\<lparr>exchange_requests := map ?f (exchange_requests db)\<rparr>"
  let ?db2 = "?db1\<lparr>exchange_requests := map ?g (exchange_requests ?db1)\<rparr>"
  have id: "request_id Q = i" using assms by (rule getById_request_id)
  have comp: "?g \<circ> ?f = accept_row i ?X"
    by (rule ext) (simp add: accept_row_def)
  have db2: "?db2 = db\<lparr>exchange_requests := map (accept_row i ?X) (exchange_requests db)\<rparr>"
    using comp by simp
  have "getExchangeRequestById ?db1 i = Inr (?f Q)"
    using assms by (subst getById_map) auto
  then have "getExchangeRequestById ?db2 i = Inr (?g (?f Q))"
    by (subst getById_map) auto
  then have read: "getExchangeRequestById ?db2 i = Inr (Q\<lparr>status := ''accepted''\<rparr>)"
    using id by simp
  show ?thesis
    unfolding acceptExchangeRequest_def
    using assms updateStatus_found [OF assms, of "''accepted''"] read db2
    by (simp add: Let_def)
qed

lemma accept_missing:
  assumes "getExchangeRequestById db i = Inl e"
  shows "acceptExchangeRequest db i = (Inl e, db)"
  unfolding acceptExchangeRequest_def using assms by simp

lemma accept_row_keys:
  "request_id (accept_row i X r) = request_id r"
  "requestee_listing_id (accept_row i X r) = requestee_listing_id r"
  "requester_listing_id (accept_row i X r) = requester_listing_id r"
  "request_date (accept_row i X r) = request_date r"
  by (simp_all add: accept_row_def)

lemma getById_after_accept:
  assumes "getExchangeRequestById db i = Inr R"
  shows "getExchangeRequestById (after_accept db i) j
         = map_sum id (accept_row i (requestee_listing_id R)) (getExchangeRequestById db j)"
  by (simp add: accept_found [OF assms] getById_map accept_row_keys)

text \<open>
  C1. When request \<open>requestId\<close> exists as \<open>R\<close>, \<^verbatim>\<open>acceptExchangeRequest\<close> returns \<open>R\<close> with
  status \<^verbatim>\<open>accepted\<close> and stores it so; every other request on the same requestee listing
  is stored with status \<^verbatim>\<open>rejected\<close>, whatever its status was; every request on another
  requestee listing is stored as it was.
\<close>

theorem accept_cascade:
  assumes "getExchangeRequestById db requestId = Inr R"
  shows "fst (acceptExchangeRequest db requestId) = Inr (R\<lparr>status := ''accepted''\<rparr>)
       \<and> getExchangeRequestById (after_accept db requestId) requestId
           = Inr (R\<lparr>status := ''accepted''\<rparr>)
       \<and> (\<forall>i Q. i \<noteq> requestId \<and> getExchangeRequestById db i = Inr Q
                  \<and> requestee_listing_id Q = requestee_listing_id R
              \<longrightarrow> getExchangeRequestById (after_accept db requestId) i
                    = Inr (Q\<lparr>status := ''rejected''\<rparr>))
       \<and> (\<forall>i Q. getExchangeRequestById db i = Inr Q
                  \<and> requestee_listing_id Q \<noteq> requestee_listing_id R
              \<longrightarrow> getExchangeRequestById (after_accept db requestId) i = Inr Q)"
proof (intro conjI allI impI)
  show "fst (acceptExchangeRequest db requestId) = Inr (R\<lparr>status := ''accepted''\<rparr>)"
    by (simp add: accept_found [OF assms])
next
  have "request_id R = requestId" using assms by (rule getById_request_id)
  then show "getExchangeRequestById (after_accept db requestId) requestId
               = Inr (R\<lparr>status := ''accepted''\<rparr>)"
    by (simp add: getById_after_accept [OF assms] assms accept_row_def)
next
  fix i Q
  assume h: "i \<noteq> requestId \<and> getExchangeRequestById db i = Inr Q
               \<and> requestee_listing_id Q = requestee_listing_id R"
  then have "request_id Q = i" by (auto dest: getById_request_id)
  with h show "getExchangeRequestById (after_accept db requestId) i
                 = Inr (Q\<lparr>status := ''rejected''\<rparr>)"
    by (simp add: getById_after_accept [OF assms] accept_row_def)
next
  fix i Q
  assume h: "getExchangeRequestById db i = Inr Q
               \<and> requestee_listing_id Q \<noteq> requestee_listing_id R"
  then have "request_id Q = i" by (auto dest: getById_request_id)
  moreover have "i \<noteq> requestId" using h assms by auto
  ultimately show "getExchangeRequestById (after_accept db requestId) i = Inr Q"
    using h by (simp add: getById_after_accept [OF assms] accept_row_def)
qed

lemma scenario_request_1:
  "getExchangeRequestById (scenario fk) 1 = Inr (request_row 1 100 200 ''pending'')"
  by (simp add: getExchangeRequestById_def scenario_def request_row_def)

lemma scenario_request_2:
  "getExchangeRequestById (scenario fk) 2 = Inr (request_row 2 300 200 ''pending'')"
  by (simp add: getExchangeRequestById_def scenario_def request_row_def)

lemma scenario_request_3:
  "getExchangeRequestById (scenario fk) 3 = Inr (request_row 3 100 300 ''pending'')"
  by (simp add: getExchangeRequestById_def scenario_def request_row_def)

theorem accept_cascade_witness:
  "getExchangeRequestById (scenario True) 1 = Inr (request_row 1 100 200 ''pending'')
   \<and> fst (acceptExchangeRequest (scenario True) 1) = Inr (request_row 1 100 200 ''accepted'')
   \<and> getExchangeRequestById (after_accept (scenario True) 1) 1 = Inr (request_row 1 100 200 ''accepted'')
   \<and> getExchangeRequestById (after_accept (scenario True) 1) 3 = Inr (request_row 3 100 300 ''rejected'')
   \<and> getExchangeRequestById (after_accept (scenario True) 1) 2 = Inr (request_row 2 300 200 ''pending'')"
proof -
  note c = accept_cascade [OF scenario_request_1 [of True]]
  have a: "fst (acceptExchangeRequest (scenario True) 1) = Inr (request_row 1 100 200 ''accepted'')"
    using c by (simp add: request_row_def)
  have b: "getExchangeRequestById (after_accept (scenario True) 1) 1
             = Inr (request_row 1 100 200 ''accepted'')"
    using c by (simp add: request_row_def)
  from c have rejected:
    "\<And>i Q. i \<noteq> 1 \<and> getExchangeRequestById (scenario True) i = Inr Q
             \<and> requestee_listing_id Q = requestee_listing_id (request_row 1 100 200 ''pending'')
       \<Longrightarrow> getExchangeRequestById (after_accept (scenario True) 1) i
             = Inr (Q\<lparr>status := ''rejected''\<rparr>)"
    by blast
  from c have untouched:
    "\<And>i Q. getExchangeRequestById (scenario True) i = Inr Q
             \<and> requestee_listing_id Q \<noteq> requestee_listing_id (request_row 1 100 200 ''pending'')
       \<Longrightarrow> getExchangeRequestById (after_accept (scenario True) 1) i = Inr Q"
    by blast
  have d: "getExchangeRequestById (after_accept (scenario True) 1) 3
             = Inr (request_row 3 100 300 ''rejected'')"
    using rejected [of 3 "request_row 3 100 300 ''pending''"] scenario_request_3 [of True]
    by (simp add: request_row_def)
  have e: "getExchangeRequestById (after_accept (scenario True) 1) 2
             = Inr (request_row 2 300 200 ''pending'')"
    using untouched [of 2 "request_row 2 300 200 ''pending''"] scenario_request_2 [of True]
    by (simp add: request_row_def)
  show ?thesis using scenario_request_1 [of True] a b d e by simp
qed

lemma after_accept_requests:
  "\<exists>f. (\<forall>r. request_id (f r) = request_id r
            \<and> requestee_listing_id (f r) = requestee_listing_id r
            \<and> requester_listing_id (f r) = requester_listing_id r
            \<and> request_date (f r) = request_date r)
       \<and> after_accept db requestId = db\<lparr>exchange_requests := map f (exchange_requests db)\<rparr>"
proof (cases "getExchangeRequestById db requestId")
  case (Inl e)
  then have "after_accept db requestId = db\<lparr>exchange_requests := map id (exchange_requests db)\<rparr>"
    by (simp add: accept_missing)
  then show ?thesis by (intro exI [of _ id]) simp
next
  case (Inr R)
  show ?thesis
    by (intro exI [of _ "accept_row requestId (requestee_listing_id R)"])
       (simp add: accept_found [OF Inr] accept_row_keys)
qed

text \<open>
  C8. \<^verbatim>\<open>acceptExchangeRequest\<close> changes status fields only: row by row, the request ids,
  both listing ids and the request dates of \<^verbatim>\<open>exchange_requests\<close> are what they were, no
  row is added or removed, and nothing outside \<^verbatim>\<open>exchange_requests\<close> changes. This holds
  for every request id, found or not.
\<close>

theorem accept_frame:
  "map request_id (exchange_requests (after_accept db requestId))
     = map request_id (exchange_requests db)
   \<and> map requestee_listing_id (exchange_requests (after_accept db requestId))
     = map requestee_listing_id (exchange_requests db)
   \<and> map requester_listing_id (exchange_requests (after_accept db requestId))
     = map requester_listing_id (exchange_requests db)
   \<and> map request_date (exchange_requests (after_accept db requestId))
     = map request_date (exchange_requests db)
   \<and> length (exchange_requests (after_accept db requestId)) = length (exchange_requests db)
   \<and> after_accept db requestId
     = db\<lparr>exchange_requests := exchange_requests (after_accept db requestId)\<rparr>"
proof -
  obtain f where f: "\<And>r. request_id (f r) = request_id r"
      "\<And>r. requestee_listing_id (f r) = requestee_listing_id r"
      "\<And>r. requester_listing_id (f r) = requester_listing_id r"
      "\<And>r. request_date (f r) = request_date r"
    and db': "after_accept db requestId = db\<lparr>exchange_requests := map f (exchange_requests db)\<rparr>"
    using after_accept_requests [of db requestId] by blast
  show ?thesis
    unfolding db' by (simp add: f comp_def)
qed

theorem accept_frame_witness:
  "fst (acceptExchangeRequest (scenario False) 1) = Inr (request_row 1 100 200 ''accepted'')
   \<and> map status (exchange_requests (after_accept (scenario False) 1))
       = [''accepted'', ''pending'', ''rejected'']
   \<and> map request_id (exchange_requests (after_accept (scenario False) 1)) = [1, 2, 3]
   \<and> map requestee_listing_id (exchange_requests (after_accept (scenario False) 1)) = [100, 300, 100]
   \<and> map requester_listing_id (exchange_requests (after_accept (scenario False) 1)) = [200, 200, 300]
   \<and> map request_date (exchange_requests (after_accept (scenario False) 1))
       = [1700000100, 1700000100, 1700000100]
   \<and> book_listings (after_accept (scenario False) 1) = book_listings (scenario False)"
proof -
  note f = accept_frame [of "scenario False" 1]
  have a: "acceptExchangeRequest (scenario False) 1
     = (Inr (request_row 1 100 200 ''accepted''),
        (scenario False)\<lparr>exchange_requests :=
           [request_row 1 100 200 ''accepted'', request_row 2 300 200 ''pending'',
            request_row 3 100 300 ''rejected'']\<rparr>)"
    unfolding accept_found [OF scenario_request_1]
    by (simp add: accept_row_def scenario_def request_row_def)
  have s: "map status (exchange_requests (after_accept (scenario False) 1))
             = [''accepted'', ''pending'', ''rejected'']"
    by (simp add: a request_row_def)
  have ids: "map request_id (exchange_requests (scenario False)) = [1, 2, 3]"
       "map requestee_listing_id (exchange_requests (scenario False)) = [100, 300, 100]"
       "map requester_listing_id (exchange_requests (scenario False)) = [200, 200, 300]"
       "map request_date (exchange_requests (scenario False)) = [1700000100, 1700000100, 1700000100]"
    by (simp_all add: scenario_def request_row_def)
  have l: "book_listings (after_accept (scenario False) 1) = book_listings (scenario False)"
    by (simp add: a)
  show ?thesis using f a s ids l by simp
qed

lemma accept_row_after_status:
  "accept_row i X (if request_id r = i then r\<lparr>status := s\<rparr> else r) = accept_row i X r"
  by (simp add: accept_row_def)

lemma accept_after_updateStatus:
  assumes "getExchangeRequestById db requestId = Inr R"
  shows "acceptExchangeRequest (snd (updateExchangeRequestStatus db requestId s)) requestId
         = acceptExchangeRequest db requestId"
proof -
  let ?f = "\<lambda>r. if request_id r = requestId then r\<lparr>status := s\<rparr> else r"
  let ?db = "db\<lparr>exchange_requests := map ?f (exchange_requests db)\<rparr>"
  have id: "request_id R = requestId" using assms by (rule getById_request_id)
  have upd: "snd (updateExchangeRequestStatus db requestId s) = ?db"
    by (simp add: updateStatus_found [OF assms])
  have "getExchangeRequestById ?db requestId = Inr (?f R)"
    using assms by (subst getById_map) auto
  then have read: "getExchangeRequestById ?db requestId = Inr (R\<lparr>status := s\<rparr>)"
    using id by simp
  show ?thesis
    unfolding upd accept_found [OF read] accept_found [OF assms]
    by (simp add: comp_def accept_row_after_status)
qed

text \<open>
  C9. \<^verbatim>\<open>acceptExchangeRequest\<close> asks nothing of the status of the request it accepts:
  whenever the request exists it is returned with status \<^verbatim>\<open>accepted\<close>, every request on the
  same requestee listing ends as \<^verbatim>\<open>accepted\<close> (the request itself) or \<^verbatim>\<open>rejected\<close>, and
  setting the request to any status \<open>s\<close> beforehand changes neither the result nor the
  database left behind.
\<close>

theorem accept_any_status:
  assumes "getExchangeRequestById db requestId = Inr R"
  shows "fst (acceptExchangeRequest db requestId) = Inr (R\<lparr>status := ''accepted''\<rparr>)
       \<and> (\<forall>r \<in> set (getExchangeRequestsByRequestee (after_accept db requestId)
                       (requestee_listing_id R)).
             status r = (if request_id r = requestId then ''accepted'' else ''rejected''))
       \<and> (\<forall>s. acceptExchangeRequest (snd (updateExchangeRequestStatus db requestId s)) requestId
                = acceptExchangeRequest db requestId)"
proof (intro conjI allI ballI)
  show "fst (acceptExchangeRequest db requestId) = Inr (R\<lparr>status := ''accepted''\<rparr>)"
    by (simp add: accept_found [OF assms])
next
  fix r
  assume "r \<in> set (getExchangeRequestsByRequestee (after_accept db requestId)
                     (requestee_listing_id R))"
  then obtain q where "r = accept_row requestId (requestee_listing_id R) q"
      and "requestee_listing_id r = requestee_listing_id R"
    by (auto simp: getExchangeRequestsByRequestee_def accept_found [OF assms])
  then show "status r = (if request_id r = requestId then ''accepted'' else ''rejected'')"
    by (simp add: accept_row_def split: if_splits)
next
  fix s
  show "acceptExchangeRequest (snd (updateExchangeRequestStatus db requestId s)) requestId
          = acceptExchangeRequest db requestId"
    using assms by (rule accept_after_updateStatus)
qed

lemma settled_request_1:
  "getExchangeRequestById settled 1 = Inr (request_row 1 100 200 ''rejected'')"
  by (simp add: getExchangeRequestById_def settled_def scenario_def request_row_def)

theorem accept_any_status_witness:
  "getExchangeRequestById settled 1 = Inr (request_row 1 100 200 ''rejected'')
   \<and> fst (acceptExchangeRequest settled 1) = Inr (request_row 1 100 200 ''accepted'')
   \<and> getExchangeRequestsByRequestee (after_accept settled 1) 100
       = [request_row 1 100 200 ''accepted'', request_row 3 100 300 ''rejected'']
   \<and> acceptExchangeRequest (snd (updateExchangeRequestStatus settled 1 ''completed'')) 1
       = acceptExchangeRequest settled 1"
proof -
  note c = accept_any_status [OF settled_request_1]
  have a: "fst (acceptExchangeRequest settled 1) = Inr (request_row 1 100 200 ''accepted'')"
    using c by (simp add: request_row_def)
  have b: "getExchangeRequestsByRequestee (after_accept settled 1) 100
             = [request_row 1 100 200 ''accepted'', request_row 3 100 300 ''rejected'']"
    unfolding accept_found [OF settled_request_1]
    by (simp add: getExchangeRequestsByRequestee_def accept_row_def settled_def scenario_def
          request_row_def)
  from c have "acceptExchangeRequest (snd (updateExchangeRequestStatus settled 1 ''completed'')) 1
                 = acceptExchangeRequest settled 1"
    by blast
  then show ?thesis using settled_request_1 a b by simp
qed

section \<open>Deleting and updating rows\<close>

lemma deleteBookListing_again:
  "deleteBookListing (snd (deleteBookListing db i)) i = (False, snd (deleteBookListing db i))"
  by (simp add: deleteBookListing_def Let_def)

lemma deleteExchangeRequest_again:
  "deleteExchangeRequest (snd (deleteExchangeRequest db j)) j
     = (False, snd (deleteExchangeRequest db j))"
  by (simp add: deleteExchangeRequest_def Let_def)

text \<open>
  C7. \<^verbatim>\<open>deleteBookListing\<close> and \<^verbatim>\<open>deleteExchangeRequest\<close> return true exactly when a row
  with the id was in the table, the id is gone afterwards, and a second call with the
  same id returns false and leaves the database of the first call as it is. Nothing
  here can throw. This holds with and without foreign keys enforced.
\<close>

theorem delete_twice:
  "fst (deleteBookListing db i) = (i \<in> set (listing_ids db))
   \<and> i \<notin> set (listing_ids (snd (deleteBookListing db i)))
   \<and> deleteBookListing (snd (deleteBookListing db i)) i = (False, snd (deleteBookListing db i))
   \<and> fst (deleteExchangeRequest db j) = (j \<in> set (map request_id (exchange_requests db)))
   \<and> j \<notin> set (map request_id (exchange_requests (snd (deleteExchangeRequest db j))))
   \<and> deleteExchangeRequest (snd (deleteExchangeRequest db j)) j
       = (False, snd (deleteExchangeRequest db j))"
proof (intro conjI)
  show "fst (deleteBookListing db i) = (i \<in> set (listing_ids db))"
    by (auto simp: deleteBookListing_def Let_def listing_ids_def filter_empty_conv)
  show "i \<notin> set (listing_ids (snd (deleteBookListing db i)))"
    by (auto simp: deleteBookListing_def Let_def listing_ids_def)
  show "deleteBookListing (snd (deleteBookListing db i)) i = (False, snd (deleteBookListing db i))"
    by (rule deleteBookListing_again)
  show "fst (deleteExchangeRequest db j) = (j \<in> set (map request_id (exchange_requests db)))"
    by (auto simp: deleteExchangeRequest_def Let_def filter_empty_conv)
  show "j \<notin> set (map request_id (exchange_requests (snd (deleteExchangeRequest db j))))"
    by (auto simp: deleteExchangeRequest_def Let_def)
  show "deleteExchangeRequest (snd (deleteExchangeRequest db j)) j
          = (False, snd (deleteExchangeRequest db j))"
    by (rule deleteExchangeRequest_again)
qed

theorem delete_twice_witness:
  "deleteBookListing (scenario True) 200
     = (True, (scenario True)\<lparr>book_listings := [listing_row 100 1 10, listing_row 300 3 30],
                               exchange_requests := [request_row 3 100 300 ''pending'']\<rparr>)
   \<and> deleteBookListing (snd (deleteBookListing (scenario True) 200)) 200
     = (False, snd (deleteBookListing (scenario True) 200))
   \<and> deleteExchangeRequest (scenario True) 2
     = (True, (scenario True)\<lparr>exchange_requests :=
                 [request_row 1 100 200 ''pending'', request_row 3 100 300 ''pending'']\<rparr>)
   \<and> deleteExchangeRequest (snd (deleteExchangeRequest (scenario True) 2)) 2
     = (False, snd (deleteExchangeRequest (scenario True) 2))
   \<and> fst (deleteBookListing (scenario True) 7) = False
   \<and> fst (deleteExchangeRequest (scenario True) 7) = False"
proof -
  note d = delete_twice [of "scenario True" 200 2]
  note n = delete_twice [of "scenario True" 7 7]
  have a: "deleteBookListing (scenario True) 200
     = (True, (scenario True)\<lparr>book_listings := [listing_row 100 1 10, listing_row 300 3 30],
                               exchange_requests := [request_row 3 100 300 ''pending'']\<rparr>)"
    by (simp add: deleteBookListing_def Let_def scenario_def listing_row_def request_row_def)
  have b: "deleteExchangeRequest (scenario True) 2
     = (True, (scenario True)\<lparr>exchange_requests :=
                 [request_row 1 100 200 ''pending'', request_row 3 100 300 ''pending'']\<rparr>)"
    by (simp add: deleteExchangeRequest_def Let_def scenario_def request_row_def)
  have c: "7 \<notin> set (listing_ids (scenario True))"
          "7 \<notin> set (map request_id (exchange_requests (scenario True)))"
    by (simp_all add: listing_ids_def scenario_def listing_row_def request_row_def)
  show ?thesis using d n a b c by simp
qed

lemma getBookListingById_absent:
  "i \<notin> set (listing_ids db) \<Longrightarrow>
   getBookListingById db i
     = Inl (BookListingNotFoundError (''Book listing with ID '' @ toString i @ '' not found''))"
  by (auto simp: getBookListingById_def listing_ids_def find_None_iff split: option.splits)

lemma getExchangeRequestById_absent:
  "j \<notin> set (map request_id (exchange_requests db)) \<Longrightarrow>
   getExchangeRequestById db j
     = Inl (ExchangeRequestNotFoundError
         (''Exchange request with ID '' @ toString j @ '' not found''))"
  by (auto simp: getExchangeRequestById_def find_None_iff split: option.splits)

lemma updateBookListing_absent:
  assumes "i \<notin> set (listing_ids db)"
  shows "updateBookListing db i updates
         = (Inl (UpdateBookListingError
              ''Failed to retrieve updated listing. Transaction failed and rolled back.''), db)"
proof -
  have none: "filter (\<lambda>l. listing_id l = i) (book_listings db) = []"
    using assms by (auto simp: listing_ids_def filter_empty_conv)
  have same: "map (\<lambda>l. if listing_id l = i then set_fields updates l else l) (book_listings db)
                = book_listings db"
    using assms by (intro map_idI) (auto simp: listing_ids_def)
  show ?thesis
    unfolding updateBookListing_def update_violates_foreign_key_def
    by (simp add: none same Let_def getBookListingById_absent [OF assms])
qed

lemma updateExchangeRequestStatus_absent:
  assumes "j \<notin> set (map request_id (exchange_requests db))"
  shows "updateExchangeRequestStatus db j s
         = (Inl (UpdateExchangeRequestError
              ''Failed to retrieve updated exchange request. Transaction failed and rolled back.''),
            db)"
proof -
  have same: "map (\<lambda>r. if request_id r = j then r\<lparr>status := s\<rparr> else r) (exchange_requests db)
                = exchange_requests db"
    using assms by (intro map_idI) auto
  show ?thesis
    unfolding updateExchangeRequestStatus_def
    by (simp add: same Let_def getExchangeRequestById_absent [OF assms])
qed

text \<open>
  C6, as stated, fails: in the small marketplace no listing and no request has id 7, and
  neither \<^verbatim>\<open>updateBookListing\<close> nor \<^verbatim>\<open>updateExchangeRequestStatus\<close> throws the error that
  \<^verbatim>\<open>getBookListingById\<close> and \<^verbatim>\<open>getExchangeRequestById\<close> throw for that id.
\<close>

theorem update_absent_counterexample:
  "7 \<notin> set (listing_ids (scenario True))
   \<and> 7 \<notin> set (map request_id (exchange_requests (scenario True)))
   \<and> \<not> raises_not_found (updateBookListing (scenario True) 7 retitle)
   \<and> \<not> raises_not_found (updateExchangeRequestStatus (scenario True) 7 ''accepted'')
   \<and> raises_not_found (getBookListingById (scenario True) 7, scenario True)
   \<and> raises_not_found (getExchangeRequestById (scenario True) 7, scenario True)"
proof -
  have a: "7 \<notin> set (listing_ids (scenario True))"
          "7 \<notin> set (map request_id (exchange_requests (scenario True)))"
    by (simp_all add: listing_ids_def scenario_def listing_row_def request_row_def)
  show ?thesis
    using a
    by (simp add: raises_not_found_def updateBookListing_absent updateExchangeRequestStatus_absent
          getBookListingById_absent getExchangeRequestById_absent)
qed

text \<open>
  C6, amended. For an id that is not in the table, \<^verbatim>\<open>updateBookListing\<close> throws an
  \<^verbatim>\<open>UpdateBookListingError\<close> and \<^verbatim>\<open>updateExchangeRequestStatus\<close> an
  \<^verbatim>\<open>UpdateExchangeRequestError\<close>, as their doc comments announce, and the database is
  left as it was.
\<close>

theorem update_absent:
  "(i \<notin> set (listing_ids db) \<longrightarrow>
      updateBookListing db i updates
        = (Inl (UpdateBookListingError
             ''Failed to retrieve updated listing. Transaction failed and rolled back.''), db))
   \<and> (j \<notin> set (map request_id (exchange_requests db)) \<longrightarrow>
      updateExchangeRequestStatus db j s
        = (Inl (UpdateExchangeRequestError
             ''Failed to retrieve updated exchange request. Transaction failed and rolled back.''),
           db))"
  by (simp add: updateBookListing_absent updateExchangeRequestStatus_absent)

theorem update_absent_witness:
  "7 \<notin> set (listing_ids (scenario True))
   \<and> updateBookListing (scenario True) 7 retitle
       = (Inl (UpdateBookListingError
            ''Failed to retrieve updated listing. Transaction failed and rolled back.''),
          scenario True)
   \<and> 7 \<notin> set (map request_id (exchange_requests (scenario True)))
   \<and> updateExchangeRequestStatus (scenario True) 7 ''accepted''
       = (Inl (UpdateExchangeRequestError
            ''Failed to retrieve updated exchange request. Transaction failed and rolled back.''),
          scenario True)"
proof -
  have a: "7 \<notin> set (listing_ids (scenario True))"
          "7 \<notin> set (map request_id (exchange_requests (scenario True)))"
    by (simp_all add: listing_ids_def scenario_def listing_row_def request_row_def)
  show ?thesis
    using a update_absent [of 7 "scenario True" retitle 7 "''accepted''"] by simp
qed

section \<open>Creating an exchange request\<close>

lemma fold_max_ge: "(x::int) \<in> set ids \<Longrightarrow> x \<le> fold max ids s"
proof (induction ids arbitrary: s)
  case Nil
  then show ?case by simp
next
  case (Cons a ids)
  have mono: "\<And>t. t \<le> fold max ids t"
  proof -
    fix t :: int show "t \<le> fold max ids t"
      by (induction ids arbitrary: t) (auto intro: order_trans [OF max.cobounded2])
  qed
  show ?case
  proof (cases "x = a")
    case True
    have "a \<le> max a s" by simp
    also have "\<dots> \<le> fold max ids (max a s)" by (rule mono)
    finally show ?thesis using True by simp
  next
    case False
    with Cons.prems have "x \<in> set ids" by simp
    then show ?thesis using Cons.IH by simp
  qed
qed

lemma next_rowid_fresh: "next_rowid s ids \<notin> set ids"
proof
  assume "next_rowid s ids \<in> set ids"
  then have "next_rowid s ids \<le> fold max ids s" by (rule fold_max_ge)
  then show False by (simp add: next_rowid_def)
qed

lemma find_snoc:
  "find P (xs @ [y]) = (case find P xs of None \<Rightarrow> (if P y then Some y else None) | Some x \<Rightarrow> Some x)"
  by (induction xs) auto

lemma find_next_rowid:
  "find (\<lambda>r. request_id r = next_rowid s (map request_id rows)) rows = None"
proof -
  define i where "i = next_rowid s (map request_id rows)"
  have "i \<notin> set (map request_id rows)"
    unfolding i_def by (rule next_rowid_fresh)
  then have "find (\<lambda>r. request_id r = i) rows = None"
    by (auto simp: find_None_iff)
  then show ?thesis by (simp add: i_def)
qed

lemma getBookListingById_Inr:
  "getBookListingById db i = Inr l \<longleftrightarrow> find (\<lambda>l. listing_id l = i) (book_listings db) = Some l"
  by (simp add: getBookListingById_def split: option.splits)

lemma getBookListingById_Inl:
  "getBookListingById db i = Inl e \<Longrightarrow> find (\<lambda>l. listing_id l = i) (book_listings db) = None"
  by (simp add: getBookListingById_def split: option.splits)

lemma create_transaction_inserts:
  assumes "getBookListingById db (for_requestee_listing_id exchangeRequest) = Inr l1"
      and "getBookListingById db (for_requester_listing_id exchangeRequest) = Inr l2"
      and "user_id l1 \<noteq> user_id l2"
  shows "create_transaction db now exchangeRequest
         = (Inr (inserted_row db now exchangeRequest),
            with_row db (inserted_row db now exchangeRequest))"
proof -
  have found: "find (\<lambda>l. listing_id l = for_requestee_listing_id exchangeRequest)
                 (book_listings db) = Some l1"
              "find (\<lambda>l. listing_id l = for_requester_listing_id exchangeRequest)
                 (book_listings db) = Some l2"
    using assms by (simp_all add: getBookListingById_Inr)
  show ?thesis
    unfolding create_transaction_def
    using assms(3)
    by (simp add: found Let_def inserted_row_def with_row_def getExchangeRequestById_def
          find_snoc find_next_rowid)
qed

lemma createExchangeRequest_inserts:
  assumes "getBookListingById db (for_requestee_listing_id exchangeRequest) = Inr l1"
      and "getBookListingById db (for_requester_listing_id exchangeRequest) = Inr l2"
      and "user_id l1 \<noteq> user_id l2"
  shows "createExchangeRequest db now exchangeRequest
         = (Inr (inserted_row db now exchangeRequest),
            with_row db (inserted_row db now exchangeRequest))"
  by (simp add: createExchangeRequest_def create_transaction_inserts [OF assms])

lemma createExchangeRequest_same_owner:
  assumes "getBookListingById db (for_requestee_listing_id exchangeRequest) = Inr l1"
      and "getBookListingById db (for_requester_listing_id exchangeRequest) = Inr l2"
      and "user_id l1 = user_id l2"
  shows "createExchangeRequest db now exchangeRequest
         = (Inl (CreateExchangeRequestError
              ''Failed to create exchange request: Cannot create exchange request between listings owned by the same user''),
            db)"
  using assms
  unfolding createExchangeRequest_def create_transaction_def getBookListingById_Inr
  by (simp add: Let_def)

lemma createExchangeRequest_missing:
  assumes "getBookListingById db (for_requestee_listing_id exchangeRequest) = Inl e
           \<or> getBookListingById db (for_requester_listing_id exchangeRequest) = Inl e"
  shows "createExchangeRequest db now exchangeRequest
         = (Inl (CreateExchangeRequestError
              ''Failed to create exchange request: One or both listings not found''), db)"
  using assms
  unfolding createExchangeRequest_def create_transaction_def
  by (auto simp: Let_def dest!: getBookListingById_Inl split: option.splits)

lemma exists_with_row:
  "exchangeRequestExists (with_row db row) a b
   = (exchangeRequestExists db a b
      \<or> (requestee_listing_id row = a \<and> requester_listing_id row = b))"
  by (auto simp: exchangeRequestExists_def with_row_def)

lemma getBookListingById_with_row:
  "getBookListingById (with_row db row) i = getBookListingById db i"
  by (simp add: getBookListingById_def with_row_def)

lemma service_duplicate:
  assumes "exchangeRequestExists db a b"
  shows "ExchangeService_createExchangeRequest db now a b
         = (Inl (CreateExchangeRequestError
              ''An exchange request already exists between these listings''), db)"
  using assms by (simp add: ExchangeService_createExchangeRequest_def service_catch_def)

lemma service_creates:
  assumes "getBookListingById db a = Inr l1" and "getBookListingById db b = Inr l2"
      and "user_id l1 \<noteq> user_id l2" and "\<not> exchangeRequestExists db a b"
  shows "ExchangeService_createExchangeRequest db now a b
         = (Inr (inserted_row db now (proposal a b ''pending'' (Some now))),
            with_row db (inserted_row db now (proposal a b ''pending'' (Some now))))"
proof -
  have "createExchangeRequest db now (proposal a b ''pending'' (Some now))
          = (Inr (inserted_row db now (proposal a b ''pending'' (Some now))),
             with_row db (inserted_row db now (proposal a b ''pending'' (Some now))))"
    using assms(1-3) by (intro createExchangeRequest_inserts) (simp_all add: proposal_def)
  then show ?thesis
    using assms(4)
    by (simp add: ExchangeService_createExchangeRequest_def service_catch_def proposal_def)
qed

lemma service_rejects:
  assumes "createExchangeRequest db now (proposal a b ''pending'' (Some now))
           = (Inl (CreateExchangeRequestError m), db)"
  shows "\<exists>m'. ExchangeService_createExchangeRequest db now a b
              = (Inl (CreateExchangeRequestError m'), db)"
proof (cases "exchangeRequestExists db a b")
  case True
  then show ?thesis by (simp add: service_duplicate)
next
  case False
  then show ?thesis
    using assms
    by (simp add: ExchangeService_createExchangeRequest_def service_catch_def proposal_def)
qed

lemma inserted_row_fields:
  "requestee_listing_id (inserted_row db now (proposal a b s d)) = a"
  "requester_listing_id (inserted_row db now (proposal a b s d)) = b"
  "status (inserted_row db now (proposal a b ''pending'' d)) = ''pending''"
  "request_date (inserted_row db now (proposal a b s (Some t))) = t"
  by (simp_all add: inserted_row_def proposal_def)

text \<open>
  C3. Let listings \<open>L1\<close> and \<open>L2\<close> exist with different owners and let no request exist for
  the ordered pair (requestee \<open>L1\<close>, requester \<open>L2\<close>). Then
  \<^verbatim>\<open>ExchangeService.createExchangeRequest\<close> succeeds: it appends one pending request for
  the pair, dated now. In the database it leaves, every further call for the same ordered
  pair fails with the \<^verbatim>\<open>CreateExchangeRequestError\<close> whose message says that the request
  already exists, and changes nothing. If the reverse pair had no request either, a call
  for the reverse pair still succeeds afterwards.
\<close>

theorem create_once:
  assumes "getBookListingById db L1 = Inr l1" and "getBookListingById db L2 = Inr l2"
      and "user_id l1 \<noteq> user_id l2" and "\<not> exchangeRequestExists db L1 L2"
  shows "\<exists>r db1.
           ExchangeService_createExchangeRequest db now L1 L2 = (Inr r, db1)
         \<and> requestee_listing_id r = L1 \<and> requester_listing_id r = L2
         \<and> status r = ''pending'' \<and> request_date r = now
         \<and> exchange_requests db1 = exchange_requests db @ [r]
         \<and> (\<forall>later. ExchangeService_createExchangeRequest db1 later L1 L2
               = (Inl (CreateExchangeRequestError
                    ''An exchange request already exists between these listings''), db1))
         \<and> (\<not> exchangeRequestExists db L2 L1 \<longrightarrow>
              (\<forall>later. \<exists>r' db2.
                   ExchangeService_createExchangeRequest db1 later L2 L1 = (Inr r', db2)
                 \<and> requestee_listing_id r' = L2 \<and> requester_listing_id r' = L1
                 \<and> exchange_requests db2 = exchange_requests db1 @ [r']))"
proof -
  define r where "r = inserted_row db now (proposal L1 L2 ''pending'' (Some now))"
  define db1 where "db1 = with_row db r"
  have differ: "L1 \<noteq> L2" using assms(1-3) by auto
  have first: "ExchangeService_createExchangeRequest db now L1 L2 = (Inr r, db1)"
    unfolding r_def db1_def using assms by (rule service_creates)
  have fields: "requestee_listing_id r = L1" "requester_listing_id r = L2"
      "status r = ''pending''" "request_date r = now"
    by (simp_all add: r_def inserted_row_fields)
  have appended: "exchange_requests db1 = exchange_requests db @ [r]"
    by (simp add: db1_def with_row_def)
  have dup: "exchangeRequestExists db1 L1 L2"
    by (simp add: db1_def exists_with_row fields)
  have second: "\<forall>later. ExchangeService_createExchangeRequest db1 later L1 L2
               = (Inl (CreateExchangeRequestError
                    ''An exchange request already exists between these listings''), db1)"
    using dup by (simp add: service_duplicate)
  have reverse: "\<forall>later. \<exists>r' db2.
                   ExchangeService_createExchangeRequest db1 later L2 L1 = (Inr r', db2)
                 \<and> requestee_listing_id r' = L2 \<and> requester_listing_id r' = L1
                 \<and> exchange_requests db2 = exchange_requests db1 @ [r']"
    if free: "\<not> exchangeRequestExists db L2 L1"
  proof
    fix later
    let ?r' = "inserted_row db1 later (proposal L2 L1 ''pending'' (Some later))"
    have a: "\<not> exchangeRequestExists db1 L2 L1"
      using free differ by (simp add: db1_def exists_with_row fields)
    have b: "getBookListingById db1 L2 = Inr l2" and c: "getBookListingById db1 L1 = Inr l1"
      using assms(1,2) by (simp_all add: db1_def getBookListingById_with_row)
    have d: "user_id l2 \<noteq> user_id l1" using assms(3) by simp
    have "ExchangeService_createExchangeRequest db1 later L2 L1 = (Inr ?r', with_row db1 ?r')"
      using b c d a by (rule service_creates)
    then show "\<exists>r' db2.
                   ExchangeService_createExchangeRequest db1 later L2 L1 = (Inr r', db2)
                 \<and> requestee_listing_id r' = L2 \<and> requester_listing_id r' = L1
                 \<and> exchange_requests db2 = exchange_requests db1 @ [r']"
      by (simp add: inserted_row_fields with_row_def)
  qed
  show ?thesis
    using first fields appended second reverse by blast
qed

lemma listed_listings:
  "getBookListingById listed 100 = Inr (listing_row 100 1 10)"
  "getBookListingById listed 200 = Inr (listing_row 200 2 20)"
  "getBookListingById listed 400 = Inr (listing_row 400 1 40)"
  by (simp_all add: getBookListingById_def listed_def listing_row_def)

lemma listed_first_request:
  "ExchangeService_createExchangeRequest listed 1700000100 100 200
     = (Inr (request_row 1 100 200 ''pending''),
        listed\<lparr>exchange_requests := [request_row 1 100 200 ''pending''],
               exchange_requests_seq := 1\<rparr>)"
proof -
  have "\<not> exchangeRequestExists listed 100 200"
    by (simp add: exchangeRequestExists_def listed_def)
  then have "ExchangeService_createExchangeRequest listed 1700000100 100 200
     = (Inr (inserted_row listed 1700000100 (proposal 100 200 ''pending'' (Some 1700000100))),
        with_row listed
          (inserted_row listed 1700000100 (proposal 100 200 ''pending'' (Some 1700000100))))"
    by (intro service_creates [OF listed_listings(1) listed_listings(2)])
       (simp_all add: listing_row_def)
  moreover have "inserted_row listed 1700000100 (proposal 100 200 ''pending'' (Some 1700000100))
                   = request_row 1 100 200 ''pending''"
    by (simp add: inserted_row_def proposal_def request_row_def next_rowid_def listed_def)
  ultimately show ?thesis
    by (simp add: with_row_def) (simp add: listed_def request_row_def)
qed

theorem create_once_witness:
  "getBookListingById listed 100 = Inr (listing_row 100 1 10)
   \<and> getBookListingById listed 200 = Inr (listing_row 200 2 20)
   \<and> user_id (listing_row 100 1 10) \<noteq> user_id (listing_row 200 2 20)
   \<and> \<not> exchangeRequestExists listed 100 200
   \<and> \<not> exchangeRequestExists listed 200 100
   \<and> fst (ExchangeService_createExchangeRequest listed 1700000100 100 200)
       = Inr (request_row 1 100 200 ''pending'')
   \<and> fst (ExchangeService_createExchangeRequest
            (snd (ExchangeService_createExchangeRequest listed 1700000100 100 200))
            1700000200 100 200)
       = Inl (CreateExchangeRequestError
                ''An exchange request already exists between these listings'')
   \<and> (\<exists>r'. fst (ExchangeService_createExchangeRequest
                  (snd (ExchangeService_createExchangeRequest listed 1700000100 100 200))
                  1700000200 200 100) = Inr r'
            \<and> requestee_listing_id r' = 200 \<and> requester_listing_id r' = 100)"
proof -
  have owners: "user_id (listing_row 100 1 10) \<noteq> user_id (listing_row 200 2 20)"
    by (simp add: listing_row_def)
  have free: "\<not> exchangeRequestExists listed 100 200" "\<not> exchangeRequestExists listed 200 100"
    by (simp_all add: exchangeRequestExists_def listed_def)
  from create_once [OF listed_listings(1) listed_listings(2) owners free(1), of 1700000100]
  obtain r db1 where
      first: "ExchangeService_createExchangeRequest listed 1700000100 100 200 = (Inr r, db1)"
    and second: "\<forall>later. ExchangeService_createExchangeRequest db1 later 100 200
               = (Inl (CreateExchangeRequestError
                    ''An exchange request already exists between these listings''), db1)"
    and reverse: "\<not> exchangeRequestExists listed 200 100 \<longrightarrow>
              (\<forall>later. \<exists>r' db2.
                   ExchangeService_createExchangeRequest db1 later 200 100 = (Inr r', db2)
                 \<and> requestee_listing_id r' = 200 \<and> requester_listing_id r' = 100
                 \<and> exchange_requests db2 = exchange_requests db1 @ [r'])"
    by blast
  have r: "r = request_row 1 100 200 ''pending''"
    using first listed_first_request by simp
  have a: "fst (ExchangeService_createExchangeRequest listed 1700000100 100 200)
             = Inr (request_row 1 100 200 ''pending'')"
    using first r by simp
  have b: "fst (ExchangeService_createExchangeRequest
                  (snd (ExchangeService_createExchangeRequest listed 1700000100 100 200))
                  1700000200 100 200)
             = Inl (CreateExchangeRequestError
                      ''An exchange request already exists between these listings'')"
    using first second by simp
  from reverse free(2) obtain r' db2 where
      "ExchangeService_createExchangeRequest db1 1700000200 200 100 = (Inr r', db2)"
      "requestee_listing_id r' = 200" "requester_listing_id r' = 100"
    by blast
  then have c: "\<exists>r'. fst (ExchangeService_createExchangeRequest
                  (snd (ExchangeService_createExchangeRequest listed 1700000100 100 200))
                  1700000200 200 100) = Inr r'
            \<and> requestee_listing_id r' = 200 \<and> requester_listing_id r' = 100"
    using first by simp
  show ?thesis
    using listed_listings(1,2) owners free a b c by simp
qed

text \<open>
  C4. Creating a request between a listing and itself always fails with a
  \<^verbatim>\<open>CreateExchangeRequestError\<close>, in the DAO and in the service, and the database is left as
  it was. So does creating a request between two listings of one owner; the DAO's message
  then is the one about listings owned by the same user.
\<close>

theorem create_same_owner:
  "(\<exists>m. createExchangeRequest db now (proposal L L s d)
          = (Inl (CreateExchangeRequestError m), db))
   \<and> (\<exists>m. ExchangeService_createExchangeRequest db now L L
          = (Inl (CreateExchangeRequestError m), db))
   \<and> (getBookListingById db L1 = Inr l1 \<and> getBookListingById db L2 = Inr l2
        \<and> user_id l1 = user_id l2 \<longrightarrow>
        createExchangeRequest db now (proposal L1 L2 s d)
          = (Inl (CreateExchangeRequestError
               ''Failed to create exchange request: Cannot create exchange request between listings owned by the same user''),
             db)
        \<and> (\<exists>m. ExchangeService_createExchangeRequest db now L1 L2
               = (Inl (CreateExchangeRequestError m), db)))"
proof (intro conjI impI)
  have self: "\<exists>m. createExchangeRequest db now (proposal L L s' d')
                = (Inl (CreateExchangeRequestError m), db)" for s' d'
  proof (cases "getBookListingById db L")
    case (Inl e)
    then show ?thesis
      by (subst createExchangeRequest_missing [where e = e]) (simp_all add: proposal_def)
  next
    case (Inr l)
    then show ?thesis
      by (subst createExchangeRequest_same_owner [where ?l1.0 = l and ?l2.0 = l])
         (simp_all add: proposal_def)
  qed
  show "\<exists>m. createExchangeRequest db now (proposal L L s d)
          = (Inl (CreateExchangeRequestError m), db)"
    by (rule self)
  show "\<exists>m. ExchangeService_createExchangeRequest db now L L
          = (Inl (CreateExchangeRequestError m), db)"
    using self [of "''pending''" "Some now"] by (auto intro: service_rejects)
next
  assume h: "getBookListingById db L1 = Inr l1 \<and> getBookListingById db L2 = Inr l2
        \<and> user_id l1 = user_id l2"
  have same: "createExchangeRequest db now (proposal L1 L2 s' d')
          = (Inl (CreateExchangeRequestError
               ''Failed to create exchange request: Cannot create exchange request between listings owned by the same user''),
             db)" for s' d'
    using h
    by (intro createExchangeRequest_same_owner [where ?l1.0 = l1 and ?l2.0 = l2])
       (simp_all add: proposal_def)
  show "createExchangeRequest db now (proposal L1 L2 s d)
          = (Inl (CreateExchangeRequestError
               ''Failed to create exchange request: Cannot create exchange request between listings owned by the same user''),
             db)"
    by (rule same)
  show "\<exists>m. ExchangeService_createExchangeRequest db now L1 L2
               = (Inl (CreateExchangeRequestError m), db)"
    using same [of "''pending''" "Some now"] by (auto intro: service_rejects)
qed

theorem create_same_owner_witness:
  "getBookListingById listed 100 = Inr (listing_row 100 1 10)
   \<and> getBookListingById listed 400 = Inr (listing_row 400 1 40)
   \<and> user_id (listing_row 100 1 10) = user_id (listing_row 400 1 40)
   \<and> createExchangeRequest listed 1700000100 (proposal 100 400 ''pending'' None)
       = (Inl (CreateExchangeRequestError
            ''Failed to create exchange request: Cannot create exchange request between listings owned by the same user''),
          listed)
   \<and> (\<exists>m. ExchangeService_createExchangeRequest listed 1700000100 100 400
          = (Inl (CreateExchangeRequestError m), listed))
   \<and> (\<exists>m. createExchangeRequest listed 1700000100 (proposal 100 100 ''pending'' None)
          = (Inl (CreateExchangeRequestError m), listed))
   \<and> (\<exists>m. ExchangeService_createExchangeRequest listed 1700000100 7 7
          = (Inl (CreateExchangeRequestError m), listed))"
proof -
  have owners: "user_id (listing_row 100 1 10) = user_id (listing_row 400 1 40)"
    by (simp add: listing_row_def)
  note a = create_same_owner [of listed 1700000100 100 "''pending''" None 100
             "listing_row 100 1 10" 400 "listing_row 400 1 40"]
  note b = create_same_owner [of listed 1700000100 7 "''pending''" None 100
             "listing_row 100 1 10" 400 "listing_row 400 1 40"]
  show ?thesis
    using listed_listings(1,3) owners a b by simp
qed

section \<open>The accept handler\<close>

lemma deleteBookListing_listings:
  "book_listings (snd (deleteBookListing db i)) = filter (\<lambda>l. listing_id l \<noteq> i) (book_listings db)"
  by (simp add: deleteBookListing_def Let_def)

lemma deleteBookListing_requests:
  "exchange_requests (snd (deleteBookListing db i))
   = (if foreign_keys db \<and> i \<in> set (listing_ids db)
      then filter (\<lambda>r. requestee_listing_id r \<noteq> i \<and> requester_listing_id r \<noteq> i)
             (exchange_requests db)
      else exchange_requests db)"
  by (auto simp: deleteBookListing_def Let_def listing_ids_def filter_empty_conv)

lemma deleteBookListing_foreign_keys:
  "foreign_keys (snd (deleteBookListing db i)) = foreign_keys db"
  by (simp add: deleteBookListing_def Let_def)

lemma deleteBookListing_ids:
  "set (listing_ids (snd (deleteBookListing db i))) = set (listing_ids db) - {i}"
  by (auto simp: listing_ids_def deleteBookListing_listings)

lemma retire_listings_ids:
  "set (listing_ids (retire_listings db a b)) = set (listing_ids db) - {a, b}"
  by (auto simp: retire_listings_def deleteBookListing_ids)

lemma retire_listings_requests_unenforced:
  "\<not> foreign_keys db \<Longrightarrow> exchange_requests (retire_listings db a b) = exchange_requests db"
  by (simp add: retire_listings_def deleteBookListing_requests deleteBookListing_foreign_keys)

lemma after_accept_listings:
  "book_listings (after_accept db i) = book_listings db"
  "foreign_keys (after_accept db i) = foreign_keys db"
  "users (after_accept db i) = users db"
proof -
  obtain f where "after_accept db i = db\<lparr>exchange_requests := map f (exchange_requests db)\<rparr>"
    using after_accept_requests [of db i] by blast
  then show "book_listings (after_accept db i) = book_listings db"
    "foreign_keys (after_accept db i) = foreign_keys db"
    "users (after_accept db i) = users db"
    by simp_all
qed

lemma acceptExchange_forbidden:
  assumes "getExchangeRequestById db requestId = Inr R"
      and "getUserProfile db username = Inr profile"
      and "getBookListingById db (requestee_listing_id R) = Inr L"
      and "user_id L \<noteq> fst profile"
  shows "acceptExchange db (Some requestId) (Some username)
         = (Response 403 (error_json
              ''Only the owner of the requested book can accept an exchange request''), db)"
  using assms by (simp add: acceptExchange_def)

lemma acceptExchange_owner:
  assumes "getExchangeRequestById db requestId = Inr R"
      and "getUserProfile db username = Inr profile"
      and "getBookListingById db (requestee_listing_id R) = Inr L"
      and "user_id L = fst profile"
  shows "acceptExchange db (Some requestId) (Some username)
         = (Response 200 (request_json (R\<lparr>status := ''accepted''\<rparr>)),
            retire_listings (after_accept db requestId)
              (requestee_listing_id R) (requester_listing_id R))"
  using assms
  by (simp add: acceptExchange_def accept_found [OF assms(1)] Let_def retire_listings_def)

lemma acceptExchange_outcomes:
  "snd (acceptExchange db requestId user) = db
   \<or> (\<exists>i R. requestId = Some i \<and> getExchangeRequestById db i = Inr R
          \<and> snd (acceptExchange db requestId user)
              = retire_listings (after_accept db i)
                  (requestee_listing_id R) (requester_listing_id R))"
proof (cases requestId)
  case None
  then show ?thesis by (simp add: acceptExchange_def)
next
  case (Some i)
  show ?thesis
  proof (cases "getExchangeRequestById db i")
    case (Inl e)
    then show ?thesis using Some
      by (simp add: acceptExchange_def split: option.splits)
  next
    case (Inr R)
    then show ?thesis using Some
      by (simp add: acceptExchange_def accept_found [OF Inr] Let_def retire_listings_def
            split: option.splits sum.splits)
  qed
qed

lemma references_exist_iff:
  "references_exist db
   = (\<forall>r \<in> set (exchange_requests db).
        requestee_listing_id r \<in> set (listing_ids db)
        \<and> requester_listing_id r \<in> set (listing_ids db))"
  by (simp add: references_exist_def list_all_iff)

lemma after_accept_references:
  "references_exist (after_accept db i) = references_exist db"
proof -
  obtain f where keys: "\<And>r. requestee_listing_id (f r) = requestee_listing_id r"
      "\<And>r. requester_listing_id (f r) = requester_listing_id r"
    and db': "after_accept db i = db\<lparr>exchange_requests := map f (exchange_requests db)\<rparr>"
    using after_accept_requests [of db i] by blast
  show ?thesis
    unfolding db' by (simp add: references_exist_iff listing_ids_def keys)
qed

lemma deleteBookListing_references:
  assumes "foreign_keys db" and "references_exist db"
  shows "references_exist (snd (deleteBookListing db i))"
proof (cases "i \<in> set (listing_ids db)")
  case True
  then show ?thesis
    using assms
    by (auto simp: references_exist_iff deleteBookListing_requests deleteBookListing_ids)
next
  case False
  then have "filter (\<lambda>l. listing_id l \<noteq> i) (book_listings db) = book_listings db"
    by (auto simp: listing_ids_def filter_id_conv)
  then have "listing_ids (snd (deleteBookListing db i)) = listing_ids db"
    by (simp add: listing_ids_def deleteBookListing_listings)
  then show ?thesis
    using assms False
    by (simp add: references_exist_iff deleteBookListing_requests)
qed

lemma retire_listings_references:
  assumes "foreign_keys db" and "references_exist db"
  shows "references_exist (retire_listings db a b)"
  unfolding retire_listings_def
  by (intro deleteBookListing_references)
     (simp_all add: assms deleteBookListing_foreign_keys deleteBookListing_references)

lemma retire_listings_cascade:
  assumes "foreign_keys db" and "a \<in> set (listing_ids db)" and "b \<in> set (listing_ids db)"
      and "r \<in> set (exchange_requests (retire_listings db a b))"
  shows "requestee_listing_id r \<notin> {a, b} \<and> requester_listing_id r \<notin> {a, b}"
proof (cases "b = a")
  case True
  then show ?thesis
    using assms
    by (auto simp: retire_listings_def deleteBookListing_requests deleteBookListing_foreign_keys
          deleteBookListing_ids split: if_splits)
next
  case False
  then have "b \<in> set (listing_ids (snd (deleteBookListing db a)))"
    using assms(3) by (simp add: deleteBookListing_ids)
  then show ?thesis
    using assms
    by (auto simp: retire_listings_def deleteBookListing_requests deleteBookListing_foreign_keys)
qed

lemma acceptExchange_references:
  assumes "foreign_keys db" and "references_exist db"
  shows "references_exist (snd (acceptExchange db requestId user))"
  using acceptExchange_outcomes [of db requestId user] assms
  by (auto simp: retire_listings_references after_accept_references after_accept_listings)

lemma acceptExchange_refused:
  assumes "getExchangeRequestById db requestId = Inr R"
      and "\<not> (\<exists>username profile L. user = Some username
               \<and> getUserProfile db username = Inr profile
               \<and> getBookListingById db (requestee_listing_id R) = Inr L
               \<and> user_id L = fst profile)"
  shows "snd (acceptExchange db (Some requestId) user) = db
       \<and> (\<forall>b. fst (acceptExchange db (Some requestId) user) \<noteq> Response 200 b)"
proof (cases user)
  case None
  then show ?thesis by (simp add: acceptExchange_def)
next
  case (Some username)
  show ?thesis
  proof (cases "getUserProfile db username")
    case (Inl e)
    then show ?thesis using Some assms(1)
      by (simp add: acceptExchange_def accept_catch_def split: error.splits)
  next
    case profile: (Inr profile)
    show ?thesis
    proof (cases "getBookListingById db (requestee_listing_id R)")
      case (Inl e)
      then show ?thesis using Some assms(1) profile
        by (simp add: acceptExchange_def accept_catch_def split: error.splits)
    next
      case (Inr L)
      then have "user_id L \<noteq> fst profile" using assms(2) Some profile by blast
      then show ?thesis using Some assms(1) profile Inr
        by (simp add: acceptExchange_def)
    qed
  qed
qed

text \<open>
  C2. Let the request exist, let the caller have a profile and let the requestee listing
  exist with another owner. Then the handler answers 403 and returns the database it was
  given: the request is stored as before, no request and no listing has changed. More
  generally, for any caller that does not resolve to the owner of the requestee listing
  (no user on the request, no profile, or the listing missing), the handler never answers
  200 and leaves the database as it was.
\<close>

theorem accept_not_owner:
  assumes "getExchangeRequestById db requestId = Inr R"
      and "getUserProfile db username = Inr profile"
      and "getBookListingById db (requestee_listing_id R) = Inr L"
      and "user_id L \<noteq> fst profile"
  shows "acceptExchange db (Some requestId) (Some username)
           = (Response 403 (error_json
                ''Only the owner of the requested book can accept an exchange request''), db)
       \<and> getExchangeRequestById (after_acceptExchange db requestId username) requestId = Inr R
       \<and> exchange_requests (after_acceptExchange db requestId username) = exchange_requests db
       \<and> getAllBookListings (after_acceptExchange db requestId username) = getAllBookListings db
       \<and> (\<forall>user. \<not> (\<exists>name p l. user = Some name \<and> getUserProfile db name = Inr p
                         \<and> getBookListingById db (requestee_listing_id R) = Inr l
                         \<and> user_id l = fst p)
              \<longrightarrow> snd (acceptExchange db (Some requestId) user) = db
                  \<and> (\<forall>b. fst (acceptExchange db (Some requestId) user) \<noteq> Response 200 b))"
proof -
  have forbidden: "acceptExchange db (Some requestId) (Some username)
           = (Response 403 (error_json
                ''Only the owner of the requested book can accept an exchange request''), db)"
    using assms by (rule acceptExchange_forbidden)
  have refused: "\<forall>user. \<not> (\<exists>name p l. user = Some name \<and> getUserProfile db name = Inr p
                         \<and> getBookListingById db (requestee_listing_id R) = Inr l
                         \<and> user_id l = fst p)
              \<longrightarrow> snd (acceptExchange db (Some requestId) user) = db
                  \<and> (\<forall>b. fst (acceptExchange db (Some requestId) user) \<noteq> Response 200 b)"
    using acceptExchange_refused [OF assms(1)] by blast
  show ?thesis
    using forbidden refused assms(1) by simp
qed

lemma scenario_profiles:
  "getUserProfile (scenario fk) ''alice'' = Inr (1, ''alice'')"
  "getUserProfile (scenario fk) ''bob'' = Inr (2, ''bob'')"
  by (simp_all add: getUserProfile_def scenario_def)

lemma scenario_listing_100:
  "getBookListingById (scenario fk) 100 = Inr (listing_row 100 1 10)"
  by (simp add: getBookListingById_def scenario_def listing_row_def)

theorem accept_not_owner_witness:
  "getExchangeRequestById (scenario True) 1 = Inr (request_row 1 100 200 ''pending'')
   \<and> getUserProfile (scenario True) ''bob'' = Inr (2, ''bob'')
   \<and> getBookListingById (scenario True) 100 = Inr (listing_row 100 1 10)
   \<and> user_id (listing_row 100 1 10) \<noteq> fst (2 :: int, ''bob'')
   \<and> acceptExchange (scenario True) (Some 1) (Some ''bob'')
       = (Response 403 (error_json
            ''Only the owner of the requested book can accept an exchange request''),
          scenario True)
   \<and> snd (acceptExchange (scenario True) (Some 1) None) = scenario True"
proof -
  have listing: "getBookListingById (scenario True)
                   (requestee_listing_id (request_row 1 100 200 ''pending''))
                 = Inr (listing_row 100 1 10)"
    by (simp add: request_row_def scenario_listing_100)
  have other: "user_id (listing_row 100 1 10) \<noteq> fst (2 :: int, ''bob'')"
    by (simp add: listing_row_def)
  note t = accept_not_owner [OF scenario_request_1 scenario_profiles(2) listing other]
  from t have "snd (acceptExchange (scenario True) (Some 1) None) = scenario True"
    by blast
  then show ?thesis
    using t scenario_request_1 [of True] scenario_profiles(2) [of True]
      scenario_listing_100 [of True] other
    by simp
qed

lemma acceptExchange_ok:
  assumes "getExchangeRequestById db requestId = Inr R"
      and "fst (acceptExchange db (Some requestId) user) = Response 200 b"
  shows "snd (acceptExchange db (Some requestId) user)
         = retire_listings (after_accept db requestId)
             (requestee_listing_id R) (requester_listing_id R)"
proof (rule ccontr)
  assume other: "snd (acceptExchange db (Some requestId) user)
         \<noteq> retire_listings (after_accept db requestId)
             (requestee_listing_id R) (requester_listing_id R)"
  have "\<not> (\<exists>username profile L. user = Some username
               \<and> getUserProfile db username = Inr profile
               \<and> getBookListingById db (requestee_listing_id R) = Inr L
               \<and> user_id L = fst profile)"
  proof
    assume "\<exists>username profile L. user = Some username
               \<and> getUserProfile db username = Inr profile
               \<and> getBookListingById db (requestee_listing_id R) = Inr L
               \<and> user_id L = fst profile"
    then obtain username profile L where "user = Some username"
        "getUserProfile db username = Inr profile"
        "getBookListingById db (requestee_listing_id R) = Inr L" "user_id L = fst profile"
      by blast
    then show False
      using other acceptExchange_owner [OF assms(1), of username profile L] by simp
  qed
  then show False
    using acceptExchange_refused [OF assms(1), of user] assms(2) by blast
qed

text \<open>
  C5. When the owner of the requestee listing accepts an existing request, the handler
  answers 200 with the accepted request, and neither the requestee nor the requester
  listing is among \<^verbatim>\<open>getAllBookListings\<close> afterwards. The same holds for every call on the
  request that is answered 200.
\<close>

theorem accept_retires_listings:
  assumes "getExchangeRequestById db requestId = Inr R"
      and "getUserProfile db username = Inr profile"
      and "getBookListingById db (requestee_listing_id R) = Inr L"
      and "user_id L = fst profile"
  shows "fst (acceptExchange db (Some requestId) (Some username))
           = Response 200 (request_json (R\<lparr>status := ''accepted''\<rparr>))
       \<and> requestee_listing_id R
           \<notin> listing_id ` set (getAllBookListings (after_acceptExchange db requestId username))
       \<and> requester_listing_id R
           \<notin> listing_id ` set (getAllBookListings (after_acceptExchange db requestId username))
       \<and> (\<forall>user b. fst (acceptExchange db (Some requestId) user) = Response 200 b
              \<longrightarrow> requestee_listing_id R
                    \<notin> listing_id ` set (getAllBookListings
                                          (snd (acceptExchange db (Some requestId) user)))
                  \<and> requester_listing_id R
                    \<notin> listing_id ` set (getAllBookListings
                                          (snd (acceptExchange db (Some requestId) user))))"
proof -
  have gone: "requestee_listing_id R
                \<notin> listing_id ` set (getAllBookListings (retire_listings d
                     (requestee_listing_id R) (requester_listing_id R)))
              \<and> requester_listing_id R
                \<notin> listing_id ` set (getAllBookListings (retire_listings d
                     (requestee_listing_id R) (requester_listing_id R)))" for d
    using retire_listings_ids [of d "requestee_listing_id R" "requester_listing_id R"]
    by (simp add: getAllBookListings_def listing_ids_def)
  note ok = acceptExchange_owner [OF assms]
  have "\<forall>user b. fst (acceptExchange db (Some requestId) user) = Response 200 b
              \<longrightarrow> requestee_listing_id R
                    \<notin> listing_id ` set (getAllBookListings
                                          (snd (acceptExchange db (Some requestId) user)))
                  \<and> requester_listing_id R
                    \<notin> listing_id ` set (getAllBookListings
                                          (snd (acceptExchange db (Some requestId) user)))"
    using acceptExchange_ok [OF assms(1)] gone by simp
  then show ?thesis
    using ok gone by simp
qed

lemma scenario_listing_of_request_1:
  "getBookListingById (scenario fk) (requestee_listing_id (request_row 1 100 200 ''pending''))
   = Inr (listing_row 100 1 10)"
  by (simp add: request_row_def scenario_listing_100)

lemma alice_owns_100: "user_id (listing_row 100 1 10) = fst (1 :: int, ''alice'')"
  by (simp add: listing_row_def)

lemma scenario_after_acceptExchange:
  "acceptExchange (scenario fk) (Some 1) (Some ''alice'')
   = (Response 200 (request_json (request_row 1 100 200 ''accepted'')),
      (scenario fk)\<lparr> book_listings := [listing_row 300 3 30],
                      exchange_requests :=
                        (if fk then []
                         else [request_row 1 100 200 ''accepted'', request_row 2 300 200 ''pending'',
                               request_row 3 100 300 ''rejected'']) \<rparr>)"
proof -
  have a: "after_accept (scenario fk) 1
     = (scenario fk)\<lparr>exchange_requests :=
           [request_row 1 100 200 ''accepted'', request_row 2 300 200 ''pending'',
            request_row 3 100 300 ''rejected'']\<rparr>"
    unfolding accept_found [OF scenario_request_1]
    by (simp add: accept_row_def scenario_def request_row_def)
  show ?thesis
    unfolding acceptExchange_owner
      [OF scenario_request_1 scenario_profiles(1) scenario_listing_of_request_1 alice_owns_100]
    unfolding a
    by (simp add: retire_listings_def deleteBookListing_def Let_def scenario_def
          request_row_def listing_row_def)
qed

theorem accept_retires_listings_witness:
  "getExchangeRequestById (scenario True) 1 = Inr (request_row 1 100 200 ''pending'')
   \<and> getUserProfile (scenario True) ''alice'' = Inr (1, ''alice'')
   \<and> getBookListingById (scenario True) 100 = Inr (listing_row 100 1 10)
   \<and> user_id (listing_row 100 1 10) = fst (1 :: int, ''alice'')
   \<and> fst (acceptExchange (scenario True) (Some 1) (Some ''alice''))
       = Response 200 (request_json (request_row 1 100 200 ''accepted''))
   \<and> getAllBookListings (after_acceptExchange (scenario True) 1 ''alice'') = [listing_row 300 3 30]
   \<and> 100 \<notin> listing_id ` set (getAllBookListings (after_acceptExchange (scenario True) 1 ''alice''))
   \<and> 200 \<notin> listing_id ` set (getAllBookListings (after_acceptExchange (scenario True) 1 ''alice''))"
proof -
  note t = accept_retires_listings
    [OF scenario_request_1 scenario_profiles(1) scenario_listing_of_request_1 alice_owns_100,
     of True]
  have a: "fst (acceptExchange (scenario True) (Some 1) (Some ''alice''))
             = Response 200 (request_json (request_row 1 100 200 ''accepted''))"
    using t by (simp add: request_row_def)
  have b: "100 \<notin> listing_id ` set (getAllBookListings (after_acceptExchange (scenario True) 1 ''alice''))"
          "200 \<notin> listing_id ` set (getAllBookListings (after_acceptExchange (scenario True) 1 ''alice''))"
    using t by (simp_all add: request_row_def)
  have c: "getAllBookListings (after_acceptExchange (scenario True) 1 ''alice'')
             = [listing_row 300 3 30]"
    by (simp add: scenario_after_acceptExchange getAllBookListings_def)
  show ?thesis
    using scenario_request_1 [of True] scenario_profiles(1) [of True]
      scenario_listing_100 [of True] alice_owns_100 a b c
    by simp
qed

lemma getExchangeRequestById_cong:
  "exchange_requests a = exchange_requests b \<Longrightarrow>
   getExchangeRequestById a i = getExchangeRequestById b i"
  by (simp add: getExchangeRequestById_def)

lemma getBookListingById_member:
  "getBookListingById db i = Inr l \<Longrightarrow> i \<in> set (listing_ids db)"
  by (auto simp: getBookListingById_def listing_ids_def find_Some_iff split: option.splits)

lemma getExchangeRequestById_member:
  "getExchangeRequestById db i = Inr r \<Longrightarrow> r \<in> set (exchange_requests db)"
  by (auto simp: getExchangeRequestById_def find_Some_iff split: option.splits)

text \<open>
  C10, as stated, fails when foreign keys are enforced: in the small marketplace, after
  alice has accepted request 1, request 2 (bob's listing 200 offered for listing 300) is no
  longer stored as a pending request. The cascade of the schema has removed every request
  on listing 100 or 200, and every stored request still references listings that exist.
\<close>

theorem accept_dangling_counterexample:
  "fst (acceptExchange (scenario True) (Some 1) (Some ''alice''))
     = Response 200 (request_json (request_row 1 100 200 ''accepted''))
   \<and> getExchangeRequestById (scenario True) 2 = Inr (request_row 2 300 200 ''pending'')
   \<and> getExchangeRequestById (after_acceptExchange (scenario True) 1 ''alice'') 2
       \<noteq> Inr (request_row 2 300 200 ''pending'')
   \<and> exchange_requests (after_acceptExchange (scenario True) 1 ''alice'') = []
   \<and> references_exist (scenario True)
   \<and> references_exist (after_acceptExchange (scenario True) 1 ''alice'')"
proof -
  have a: "references_exist (scenario True)"
    by (simp add: references_exist_def listing_ids_def scenario_def request_row_def
          listing_row_def)
  show ?thesis
    using a scenario_request_2 [of True]
    by (simp add: scenario_after_acceptExchange getExchangeRequestById_def
          references_exist_def)
qed

lemma after_acceptExchange_owner:
  assumes "getExchangeRequestById db requestId = Inr R"
      and "getUserProfile db username = Inr profile"
      and "getBookListingById db (requestee_listing_id R) = Inr L"
      and "user_id L = fst profile"
  shows "after_acceptExchange db requestId username
         = retire_listings (after_accept db requestId)
             (requestee_listing_id R) (requester_listing_id R)"
  by (simp add: acceptExchange_owner [OF assms])

lemma after_accept_other_requestee:
  assumes "getExchangeRequestById db requestId = Inr R"
      and "getExchangeRequestById db q = Inr Q"
      and "requestee_listing_id Q \<noteq> requestee_listing_id R"
  shows "getExchangeRequestById (after_accept db requestId) q = Inr Q"
proof -
  have "request_id Q = q" using assms(2) by (rule getById_request_id)
  moreover have "q \<noteq> requestId"
  proof
    assume "q = requestId"
    then have "Q = R" using assms(1,2) by simp
    then show False using assms(3) by simp
  qed
  ultimately show ?thesis
    using assms(2,3) by (simp add: getById_after_accept [OF assms(1)] accept_row_def)
qed

lemma unenforced_request_kept:
  assumes "getExchangeRequestById db requestId = Inr R"
      and "getUserProfile db username = Inr profile"
      and "getBookListingById db (requestee_listing_id R) = Inr L"
      and "user_id L = fst profile"
      and "\<not> foreign_keys db"
      and "getExchangeRequestById db q = Inr Q"
      and "requestee_listing_id Q \<noteq> requestee_listing_id R"
  shows "getExchangeRequestById (after_acceptExchange db requestId username) q = Inr Q"
proof -
  have off: "\<not> foreign_keys (after_accept db requestId)"
    using assms(5) by (simp add: after_accept_listings)
  have "exchange_requests (after_acceptExchange db requestId username)
          = exchange_requests (after_accept db requestId)"
    unfolding after_acceptExchange_owner [OF assms(1-4)]
    using off by (rule retire_listings_requests_unenforced)
  then have "getExchangeRequestById (after_acceptExchange db requestId username) q
               = getExchangeRequestById (after_accept db requestId) q"
    by (rule getExchangeRequestById_cong)
  then show ?thesis
    using after_accept_other_requestee [OF assms(1) assms(6) assms(7)] by simp
qed

lemma retired_ids:
  assumes "getExchangeRequestById db requestId = Inr R"
      and "getUserProfile db username = Inr profile"
      and "getBookListingById db (requestee_listing_id R) = Inr L"
      and "user_id L = fst profile"
  shows "set (listing_ids (after_acceptExchange db requestId username))
         = set (listing_ids db) - {requestee_listing_id R, requester_listing_id R}"
proof -
  have ids: "listing_ids (after_accept db requestId) = listing_ids db"
    by (simp add: listing_ids_def after_accept_listings)
  show ?thesis
    unfolding after_acceptExchange_owner [OF assms] retire_listings_ids ids ..
qed

lemma enforced_requests_gone:
  assumes "getExchangeRequestById db requestId = Inr R"
      and "getUserProfile db username = Inr profile"
      and "getBookListingById db (requestee_listing_id R) = Inr L"
      and "user_id L = fst profile"
      and "foreign_keys db" and "references_exist db"
      and "r \<in> set (exchange_requests (after_acceptExchange db requestId username))"
  shows "requestee_listing_id r \<notin> {requestee_listing_id R, requester_listing_id R}
       \<and> requester_listing_id r \<notin> {requestee_listing_id R, requester_listing_id R}"
proof -
  have ids: "listing_ids (after_accept db requestId) = listing_ids db"
    by (simp add: listing_ids_def after_accept_listings)
  have x: "requestee_listing_id R \<in> set (listing_ids (after_accept db requestId))"
    unfolding ids using assms(3) by (rule getBookListingById_member)
  have "R \<in> set (exchange_requests db)"
    using assms(1) by (rule getExchangeRequestById_member)
  then have "requester_listing_id R \<in> set (listing_ids db)"
    using assms(6) unfolding references_exist_iff by blast
  then have y: "requester_listing_id R \<in> set (listing_ids (after_accept db requestId))"
    unfolding ids .
  have fk: "foreign_keys (after_accept db requestId)"
    using assms(5) by (simp add: after_accept_listings)
  have r: "r \<in> set (exchange_requests (retire_listings (after_accept db requestId)
             (requestee_listing_id R) (requester_listing_id R)))"
    using assms(7) unfolding after_acceptExchange_owner [OF assms(1-4)] .
  show ?thesis
    using fk x y r by (rule retire_listings_cascade)
qed

text \<open>
  C10, amended. After the owner's accept of request \<open>R\<close>: without foreign keys enforced, a
  pending request on another requestee listing that offers one of the two listings of \<open>R\<close>
  is stored as before, while the listing it offers is gone. With foreign keys enforced, in
  a store where every request references existing listings, no stored request references
  either listing of \<open>R\<close> any more and every stored request still references existing
  listings.
\<close>

theorem accept_dangling:
  assumes "getExchangeRequestById db requestId = Inr R"
      and "getUserProfile db username = Inr profile"
      and "getBookListingById db (requestee_listing_id R) = Inr L"
      and "user_id L = fst profile"
  shows "(\<not> foreign_keys db \<longrightarrow>
            (\<forall>q Q. getExchangeRequestById db q = Inr Q \<and> status Q = ''pending''
                    \<and> requestee_listing_id Q \<noteq> requestee_listing_id R
                    \<and> (requester_listing_id Q = requestee_listing_id R
                       \<or> requester_listing_id Q = requester_listing_id R)
               \<longrightarrow> getExchangeRequestById (after_acceptExchange db requestId username) q = Inr Q
                   \<and> requester_listing_id Q
                       \<notin> set (listing_ids (after_acceptExchange db requestId username))))
       \<and> (foreign_keys db \<and> references_exist db \<longrightarrow>
            references_exist (after_acceptExchange db requestId username)
            \<and> (\<forall>r \<in> set (exchange_requests (after_acceptExchange db requestId username)).
                  requestee_listing_id r \<noteq> requestee_listing_id R
                  \<and> requestee_listing_id r \<noteq> requester_listing_id R
                  \<and> requester_listing_id r \<noteq> requestee_listing_id R
                  \<and> requester_listing_id r \<noteq> requester_listing_id R))"
proof (intro conjI impI allI ballI)
  fix q Q
  assume off: "\<not> foreign_keys db"
    and h: "getExchangeRequestById db q = Inr Q \<and> status Q = ''pending''
              \<and> requestee_listing_id Q \<noteq> requestee_listing_id R
              \<and> (requester_listing_id Q = requestee_listing_id R
                 \<or> requester_listing_id Q = requester_listing_id R)"
  from h have found: "getExchangeRequestById db q = Inr Q"
    and other: "requestee_listing_id Q \<noteq> requestee_listing_id R"
    and offered: "requester_listing_id Q \<in> {requestee_listing_id R, requester_listing_id R}"
    by simp_all
  show "getExchangeRequestById (after_acceptExchange db requestId username) q = Inr Q"
    using assms off found other by (rule unenforced_request_kept)
  show "requester_listing_id Q \<notin> set (listing_ids (after_acceptExchange db requestId username))"
    unfolding retired_ids [OF assms] using offered by blast
next
  assume on: "foreign_keys db \<and> references_exist db"
  then show "references_exist (after_acceptExchange db requestId username)"
    by (simp add: acceptExchange_references)
next
  fix r
  assume on: "foreign_keys db \<and> references_exist db"
    and r: "r \<in> set (exchange_requests (after_acceptExchange db requestId username))"
  from on have fk: "foreign_keys db" and ok: "references_exist db" by simp_all
  note gone = enforced_requests_gone [OF assms fk ok r]
  show "requestee_listing_id r \<noteq> requestee_listing_id R" using gone by simp
  show "requestee_listing_id r \<noteq> requester_listing_id R" using gone by simp
  show "requester_listing_id r \<noteq> requestee_listing_id R" using gone by simp
  show "requester_listing_id r \<noteq> requester_listing_id R" using gone by simp
qed

theorem accept_dangling_witness:
  "\<not> foreign_keys (scenario False)
   \<and> getExchangeRequestById (scenario False) 2 = Inr (request_row 2 300 200 ''pending'')
   \<and> getExchangeRequestById (after_acceptExchange (scenario False) 1 ''alice'') 2
       = Inr (request_row 2 300 200 ''pending'')
   \<and> 200 \<notin> set (listing_ids (after_acceptExchange (scenario False) 1 ''alice''))
   \<and> \<not> references_exist (after_acceptExchange (scenario False) 1 ''alice'')
   \<and> foreign_keys (scenario True) \<and> references_exist (scenario True)
   \<and> references_exist (after_acceptExchange (scenario True) 1 ''alice'')"
proof -
  note off = accept_dangling
    [OF scenario_request_1 scenario_profiles(1) scenario_listing_of_request_1 alice_owns_100,
     of False]
  note on = accept_dangling
    [OF scenario_request_1 scenario_profiles(1) scenario_listing_of_request_1 alice_owns_100,
     of True]
  have fk: "\<not> foreign_keys (scenario False)" "foreign_keys (scenario True)"
    by (simp_all add: scenario_def)
  have ok: "references_exist (scenario True)"
    by (simp add: references_exist_def listing_ids_def scenario_def request_row_def
          listing_row_def)
  from off fk(1) have kept:
    "\<And>q Q. getExchangeRequestById (scenario False) q = Inr Q \<and> status Q = ''pending''
        \<and> requestee_listing_id Q \<noteq> requestee_listing_id (request_row 1 100 200 ''pending'')
        \<and> (requester_listing_id Q = requestee_listing_id (request_row 1 100 200 ''pending'')
           \<or> requester_listing_id Q = requester_listing_id (request_row 1 100 200 ''pending''))
      \<Longrightarrow> getExchangeRequestById (after_acceptExchange (scenario False) 1 ''alice'') q = Inr Q
          \<and> requester_listing_id Q
              \<notin> set (listing_ids (after_acceptExchange (scenario False) 1 ''alice''))"
    by blast
  have a: "getExchangeRequestById (after_acceptExchange (scenario False) 1 ''alice'') 2
             = Inr (request_row 2 300 200 ''pending'')
           \<and> 200 \<notin> set (listing_ids (after_acceptExchange (scenario False) 1 ''alice''))"
    using kept [of 2 "request_row 2 300 200 ''pending''"] scenario_request_2 [of False]
    by (simp add: request_row_def)
  have b: "\<not> references_exist (after_acceptExchange (scenario False) 1 ''alice'')"
    by (simp add: scenario_after_acceptExchange references_exist_def listing_ids_def
          request_row_def listing_row_def)
  have c: "references_exist (after_acceptExchange (scenario True) 1 ''alice'')"
    using on fk(2) ok by blast
  show ?thesis
    using fk ok a b c scenario_request_2 [of False] by simp
qed

end
